theory Spec2Isabelle
  imports Complex_Main "HOL-Library.Sublist" "HOL-Library.AList"
begin

section \<open>Strings, digit runs and decimal numerals\<close>

text \<open>
  File names are byte strings. The regular expression \<^verbatim>\<open>/\d+/u\<close> of the source matches
  the leftmost, longest run of the ASCII digits 0..9. \<^verbatim>\<open>parseInt(s, 10)\<close> on such a run and
  \<^verbatim>\<open>Number.prototype.toString\<close> on a non-negative integer are modelled on \<open>nat\<close>; a
  JavaScript number is a double, so the model is exact for values up to
  \<open>2^53 - 1\<close> (\<^verbatim>\<open>Number.MAX_SAFE_INTEGER\<close>), which the theorems about numbering assume.
\<close>

definition is_digit :: "char \<Rightarrow> bool" where
  "is_digit c = (c \<in> set ''0123456789'')"

definition digit_val :: "char \<Rightarrow> nat" where
  "digit_val c = of_char c - 48"

definition digit_char :: "nat \<Rightarrow> char" where
  "digit_char d = ''0123456789'' ! d"

definition parseInt :: "string \<Rightarrow> nat" where
  "parseInt ds = foldl (\<lambda>a c. 10 * a + digit_val c) 0 ds"

fun toString :: "nat \<Rightarrow> string" where
  "toString n = (if n < 10 then [digit_char n] else toString (n div 10) @ [digit_char (n mod 10)])"

declare toString.simps [simp del]

definition MAX_SAFE_INTEGER :: nat where
  "MAX_SAFE_INTEGER = 9007199254740991"

text \<open>\<^verbatim>\<open>s.match(/\d+/u)\<close>: \<open>None\<close> is JavaScript's \<^verbatim>\<open>null\<close>, \<open>Some ds\<close> is \<^verbatim>\<open>match[0]\<close>.\<close>

definition match_digits :: "string \<Rightarrow> string option" where
  "match_digits s =
     (let r = dropWhile (\<lambda>c. \<not> is_digit c) s
      in if r = [] then None else Some (takeWhile is_digit r))"

text \<open>\<^verbatim>\<open>s.replace(/\d+/u, r)\<close>: only the first match is replaced; no match leaves \<open>s\<close>.\<close>

definition replace_digits :: "string \<Rightarrow> string \<Rightarrow> string" where
  "replace_digits s r =
     (let p = takeWhile (\<lambda>c. \<not> is_digit c) s;
          q = dropWhile (\<lambda>c. \<not> is_digit c) s
      in if q = [] then s else p @ r @ dropWhile is_digit q)"

text \<open>\<^verbatim>\<open>s.includes(sub)\<close>.\<close>

fun str_includes :: "string \<Rightarrow> string \<Rightarrow> bool" where
  "str_includes sub [] = (sub = [])"
| "str_includes sub (c # cs) = (prefix sub (c # cs) \<or> str_includes sub cs)"

text \<open>The canonical name of segment \<open>n\<close>, the template literal \<^verbatim>\<open>`logs_${n}.json`\<close>.\<close>

definition segment_name :: "nat \<Rightarrow> string" where
  "segment_name n = ''logs_'' @ toString n @ ''.json''"

section \<open>JavaScript values and objects\<close>

text \<open>
  Values held in memory: what \<^verbatim>\<open>JSON.parse\<close> can return, plus \<^verbatim>\<open>undefined\<close>. An object
  is the list of its own enumerable properties in enumeration order. An array carries its
  elements and, separately, the named properties assigned to it (which \<^verbatim>\<open>JSON.stringify\<close>
  does not print). Strings are byte strings, exact for ASCII text.
\<close>

datatype jsval =
    JUndefined
  | JNull
  | JBool bool
  | JNum real
  | JStr string
  | JArr "jsval list" "(string \<times> jsval) list"
  | JObj "(string \<times> jsval) list"

type_synonym props = "(string \<times> jsval) list"

datatype error = CannotCreateFile string | TypeError | ENOENT | EncodeError

text \<open>Truthiness, as tested by \<^verbatim>\<open>if (x)\<close> and \<^verbatim>\<open>x ? a : b\<close>.\<close>

fun truthy :: "jsval \<Rightarrow> bool" where
  "truthy JUndefined = False"
| "truthy JNull = False"
| "truthy (JBool b) = b"
| "truthy (JNum x) = (x \<noteq> 0)"
| "truthy (JStr s) = (s \<noteq> [])"
| "truthy (JArr xs ex) = True"
| "truthy (JObj ps) = True"

text \<open>
  A property key is an array index when it is the canonical decimal form of an integer
  below \<open>2^32 - 1\<close>. Own property keys enumerate array indices first, ascending, then the
  other string keys in creation order.
\<close>

definition array_index :: "string \<Rightarrow> nat option" where
  "array_index k =
     (if k \<noteq> [] \<and> list_all is_digit k \<and> (k = ''0'' \<or> hd k \<noteq> CHR ''0'') \<and> parseInt k < 4294967295
      then Some (parseInt k) else None)"

fun insert_index :: "nat \<Rightarrow> string \<Rightarrow> jsval \<Rightarrow> props \<Rightarrow> props" where
  "insert_index i k v [] = [(k, v)]"
| "insert_index i k v ((k', v') # ps) =
     (case array_index k' of
        Some j \<Rightarrow> if j < i then (k', v') # insert_index i k v ps else (k, v) # (k', v') # ps
      | None \<Rightarrow> (k, v) # (k', v') # ps)"

text \<open>
  Creating or overwriting an own data property (\<^verbatim>\<open>CreateDataProperty\<close>, as used by object
  literals, spread and \<^verbatim>\<open>Object.fromEntries\<close>): an existing key keeps its position.
\<close>

definition define_prop :: "props \<Rightarrow> string \<Rightarrow> jsval \<Rightarrow> props" where
  "define_prop ps k v =
     (if map_of ps k \<noteq> None then AList.update k v ps
      else case array_index k of
             Some i \<Rightarrow> insert_index i k v ps
           | None \<Rightarrow> ps @ [(k, v)])"

text \<open>
  The members every ordinary object inherits from \<^verbatim>\<open>Object.prototype\<close>; each is a function
  or an object, hence truthy.
\<close>

definition object_prototype_keys :: "string list" where
  "object_prototype_keys =
     [''constructor'', ''__defineGetter__'', ''__defineSetter__'', ''hasOwnProperty'',
      ''__lookupGetter__'', ''__lookupSetter__'', ''isPrototypeOf'', ''propertyIsEnumerable'',
      ''toString'', ''valueOf'', ''__proto__'', ''toLocaleString'']"

text \<open>\<^verbatim>\<open>if (obj[k])\<close> on an ordinary object: own property first, then the prototype.\<close>

definition member_truthy :: "props \<Rightarrow> string \<Rightarrow> bool" where
  "member_truthy ps k =
     (case map_of ps k of Some v \<Rightarrow> truthy v | None \<Rightarrow> k \<in> set object_prototype_keys)"

text \<open>
  \<^verbatim>\<open>obj[k] = v\<close> on an ordinary object, for a primitive \<open>v\<close> or a key other than
  \<^verbatim>\<open>__proto__\<close>: without an own property \<^verbatim>\<open>__proto__\<close> the inherited setter runs, and it
  ignores a primitive.
\<close>

definition assign_member :: "props \<Rightarrow> string \<Rightarrow> jsval \<Rightarrow> props" where
  "assign_member ps k v =
     (if map_of ps k = None \<and> k = ''__proto__'' then ps else define_prop ps k v)"

text \<open>
  Reading \<^verbatim>\<open>x.k\<close> for a key \<open>k\<close> that is neither an array index nor defined on a
  prototype (the source reads \<^verbatim>\<open>logs\<close> and \<^verbatim>\<open>indexes\<close>): a \<^verbatim>\<open>TypeError\<close> on
  \<^verbatim>\<open>null\<close> and \<^verbatim>\<open>undefined\<close>, \<^verbatim>\<open>undefined\<close> when absent.
\<close>

fun get_prop :: "jsval \<Rightarrow> string \<Rightarrow> error + jsval" where
  "get_prop JUndefined k = Inl TypeError"
| "get_prop JNull k = Inl TypeError"
| "get_prop (JObj ps) k = Inr (case map_of ps k of Some v \<Rightarrow> v | None \<Rightarrow> JUndefined)"
| "get_prop (JArr xs ex) k = Inr (case map_of ex k of Some v \<Rightarrow> v | None \<Rightarrow> JUndefined)"
| "get_prop v k = Inr JUndefined"

text \<open>\<^verbatim>\<open>x?.k\<close>: as above, but \<^verbatim>\<open>undefined\<close> on \<^verbatim>\<open>null\<close> and \<^verbatim>\<open>undefined\<close>.\<close>

definition get_prop_opt :: "jsval \<Rightarrow> string \<Rightarrow> jsval" where
  "get_prop_opt x k = (case get_prop x k of Inl e \<Rightarrow> JUndefined | Inr v \<Rightarrow> v)"

text \<open>
  \<^verbatim>\<open>x[k] = v\<close> in strict mode (class bodies and modules are strict) for a key other than
  \<^verbatim>\<open>length\<close>: assigning to a property of a primitive, of \<^verbatim>\<open>null\<close> or of
  \<^verbatim>\<open>undefined\<close> throws a \<^verbatim>\<open>TypeError\<close>.
\<close>

fun set_prop :: "jsval \<Rightarrow> string \<Rightarrow> jsval \<Rightarrow> error + jsval" where
  "set_prop (JObj ps) k v = Inr (JObj (assign_member ps k v))"
| "set_prop (JArr xs ex) k v =
     Inr (case array_index k of
            None \<Rightarrow> JArr xs (assign_member ex k v)
          | Some i \<Rightarrow>
              JArr (if i < length xs then xs[i := v]
                    else xs @ replicate (i - length xs) JUndefined @ [v]) ex)"
| "set_prop x k v = Inl TypeError"

text \<open>
  The value stored under \<open>k\<close> was mutated in place and became \<open>v\<close>: the holder still has
  the property at the same position.
\<close>

fun mutated_at :: "jsval \<Rightarrow> string \<Rightarrow> jsval \<Rightarrow> jsval" where
  "mutated_at (JObj ps) k v = JObj (if map_of ps k \<noteq> None then AList.update k v ps else ps)"
| "mutated_at (JArr xs ex) k v = JArr xs (if map_of ex k \<noteq> None then AList.update k v ex else ex)"
| "mutated_at x k v = x"

text \<open>The own enumerable properties a spread \<^verbatim>\<open>{...x}\<close> or \<^verbatim>\<open>Object.entries(x)\<close> visits.\<close>

fun own_entries :: "jsval \<Rightarrow> props" where
  "own_entries (JObj ps) = ps"
| "own_entries (JArr xs ex) = zip (map toString [0..<length xs]) xs @ ex"
| "own_entries (JStr s) = zip (map toString [0..<length s]) (map (\<lambda>c. JStr [c]) s)"
| "own_entries x = []"

text \<open>\<^verbatim>\<open>{...target, ...x}\<close>: the properties of \<open>x\<close> are defined on the object built so far.\<close>

definition spread :: "props \<Rightarrow> jsval \<Rightarrow> props" where
  "spread target x = foldl (\<lambda>ps (k, v). define_prop ps k v) target (own_entries x)"

text \<open>\<^verbatim>\<open>Object.entries(x)\<close> throws on \<^verbatim>\<open>null\<close> and \<^verbatim>\<open>undefined\<close>.\<close>

definition Object_entries :: "jsval \<Rightarrow> error + props" where
  "Object_entries x = (if x = JUndefined \<or> x = JNull then Inl TypeError else Inr (own_entries x))"

text \<open>\<^verbatim>\<open>xs.slice(-1)\<close>.\<close>

definition slice_last :: "'a list \<Rightarrow> 'a list" where
  "slice_last xs = (if xs = [] then [] else [last xs])"

text \<open>
  The identifiers \<^verbatim>\<open>crypto.randomUUID()\<close> returns: 36 characters, hexadecimal digits in
  groups of 8-4-4-4-12 separated by hyphens.
\<close>

definition is_uuid :: "string \<Rightarrow> bool" where
  "is_uuid u =
     (length u = 36 \<and>
      list_all (\<lambda>i. if i \<in> {8, 13, 18, 23} then u ! i = CHR ''-''
                    else u ! i \<in> set ''0123456789abcdef'') [0..<36])"

section \<open>Environment: configuration, libraries, file system, heap\<close>

text \<open>\<^verbatim>\<open>State.config\<close>, the ambient configuration every method reads.\<close>

record config =
  cfg_path :: string
  cfg_method :: bool
  cfg_body :: bool
  cfg_queryParams :: bool
  cfg_headers :: bool
  cfg_ip :: bool
  cfg_obfuscate :: "string list"
  cfg_disableProto :: "bool option"

text \<open>
  Library functions the classes call and whose code is not part of the modelled files; they
  are parameters of the model. \<open>JSON_parse\<close> returns \<open>None\<close> where \<^verbatim>\<open>JSON.parse\<close> throws;
  \<open>JSON_pretty\<close> is \<^verbatim>\<open>JSON.stringify(x, null, 2)\<close>; \<open>encodeLog\<close> is \<^verbatim>\<open>Proto.encodeLog\<close>,
  \<open>None\<close> where its promise rejects; \<open>toISOString\<close> is \<^verbatim>\<open>new Date(t).toISOString()\<close>.
\<close>

record lib =
  JSON_parse :: "string \<Rightarrow> jsval option"
  JSON_stringify :: "jsval \<Rightarrow> string"
  JSON_pretty :: "jsval \<Rightarrow> string"
  encodeLog :: "jsval \<Rightarrow> string option"
  toISOString :: "nat \<Rightarrow> string"
  path_resolve :: "string \<Rightarrow> string \<Rightarrow> string"

text \<open>
  The storage directory \<^verbatim>\<open>State.config.path\<close>: whether it exists, its files by name with
  their bytes, whether a write to a name succeeds, and whether the directory can be
  created. In a missing directory no file exists, every read, write and \<^verbatim>\<open>stat\<close> throws,
  and so does listing it. \<open>None\<close> stands for a thrown error.
\<close>

record filesys =
  files :: "(string \<times> string) list"
  writable :: "string \<Rightarrow> bool"
  dir_exists :: bool
  can_mkdir :: bool

definition existsSync :: "filesys \<Rightarrow> string \<Rightarrow> bool" where
  "existsSync fs name = (dir_exists fs \<and> map_of (files fs) name \<noteq> None)"

definition readFileSync :: "filesys \<Rightarrow> string \<Rightarrow> string option" where
  "readFileSync fs name = (if dir_exists fs then map_of (files fs) name else None)"

definition writeFileSync :: "filesys \<Rightarrow> string \<Rightarrow> string \<Rightarrow> filesys option" where
  "writeFileSync fs name data =
     (if dir_exists fs \<and> writable fs name
      then Some (fs\<lparr>files := AList.update name data (files fs)\<rparr>) else None)"

definition statSync_size :: "filesys \<Rightarrow> string \<Rightarrow> nat option" where
  "statSync_size fs name =
     (if dir_exists fs then map_option length (map_of (files fs) name) else None)"

definition readdirSync :: "filesys \<Rightarrow> string list option" where
  "readdirSync fs = (if dir_exists fs then Some (map fst (files fs)) else None)"

text \<open>\<^verbatim>\<open>fs.mkdirSync(dirPath, { recursive: true })\<close> on a missing directory.\<close>

definition mkdirSync :: "filesys \<Rightarrow> filesys option" where
  "mkdirSync fs = (if can_mkdir fs then Some (fs\<lparr>files := [], dir_exists := True\<rparr>) else None)"

text \<open>
  The caller's objects live in a store, so that sharing is visible: the request refers to
  its headers object and (when a body was parsed) its body object by address.
\<close>

record heap =
  cells :: "nat \<Rightarrow> props"
  next_addr :: nat

definition alloc :: "heap \<Rightarrow> props \<Rightarrow> nat \<times> heap" where
  "alloc h ps = (next_addr h, h\<lparr>cells := (cells h)(next_addr h := ps), next_addr := Suc (next_addr h)\<rparr>)"

definition store :: "heap \<Rightarrow> nat \<Rightarrow> props \<Rightarrow> heap" where
  "store h a ps = h\<lparr>cells := (cells h)(a := ps)\<rparr>"

record request =
  req_method :: string
  req_body :: "nat option"
  req_query :: props
  req_headers :: nat
  req_ip :: "string option"

section \<open>FileReader\<close>

text \<open>
  The fields \<^verbatim>\<open>FileWriter\<close> and \<^verbatim>\<open>FileReader\<close> share, then those only
  \<^verbatim>\<open>FileReader\<close> has. Methods whose text is the same in both classes are defined once, on
  any extension of the shared fields.
\<close>

record writer =
  logs :: jsval
  index :: jsval
  currLogSize :: nat
  currLogFile :: string

record reader = writer +
  logsJson :: jsval
  config :: jsval

definition empty_logs :: jsval where
  "empty_logs = JObj [(''logs'', JObj [])]"

definition empty_index :: jsval where
  "empty_index = JObj [(''indexes'', JObj [])]"

definition empty_config :: jsval where
  "empty_config = JObj [(''disableProto'', JBool False)]"

text \<open>The constructor and the field initialisers.\<close>

definition new_reader :: reader where
  "new_reader = \<lparr>logs = empty_logs, index = empty_index, currLogSize = 0,
                  currLogFile = ''logs_0.json'', logsJson = empty_logs, config = empty_config\<rparr>"

definition new_writer :: writer where
  "new_writer = \<lparr>logs = empty_logs, index = empty_index, currLogSize = 0,
                  currLogFile = ''logs_0.json''\<rparr>"

text \<open>
  \<^verbatim>\<open>fetchCurrentLogFile\<close>: the directory listing is not guarded, so its error leaves the
  method.
\<close>

definition fetchCurrentLogFile ::
  "filesys \<Rightarrow> string option \<Rightarrow> 'a writer_scheme \<Rightarrow> error + 'a writer_scheme" where
  "fetchCurrentLogFile fs fileName st =
     (let latest =
        (case readdirSync fs of
           None \<Rightarrow> Inl ENOENT
         | Some names \<Rightarrow>
             (let fnames = filter (str_includes ''logs'') names;
                  logNumbers = List.map_filter (\<lambda>file. map_option parseInt (match_digits file)) fnames
              in if length logNumbers = 0 then Inr st
                 else Inr (st\<lparr>currLogFile := segment_name (Max (set logNumbers))\<rparr>)))
      in case fileName of
           None \<Rightarrow> latest
         | Some f \<Rightarrow> if f \<noteq> [] then Inr (st\<lparr>currLogFile := f\<rparr>) else latest)"

definition validateFile :: "filesys \<Rightarrow> string \<Rightarrow> string \<Rightarrow> error + filesys" where
  "validateFile fs target baseBody =
     (if \<not> existsSync fs target
      then (case writeFileSync fs target baseBody of
              None \<Rightarrow> Inl (CannotCreateFile target)
            | Some fs' \<Rightarrow> Inr fs')
      else Inr fs)"

text \<open>
  \<^verbatim>\<open>initDirectories\<close>: a missing directory is created; when that fails the error is logged
  and the directory stays missing.
\<close>

definition initDirectories :: "filesys \<Rightarrow> filesys" where
  "initDirectories fs =
     (if \<not> dir_exists fs then (case mkdirSync fs of None \<Rightarrow> fs | Some fs' \<Rightarrow> fs') else fs)"

definition pre :: "lib \<Rightarrow> filesys \<Rightarrow> reader \<Rightarrow> error + filesys" where
  "pre l fs st =
     (let fs0 = initDirectories fs in
      case validateFile fs0 ''index.json'' (JSON_stringify l empty_index) of
        Inl e \<Rightarrow> Inl e
      | Inr fs1 \<Rightarrow>
     (case validateFile fs1 (currLogFile st) (JSON_stringify l empty_logs) of
        Inl e \<Rightarrow> Inl e
      | Inr fs2 \<Rightarrow> validateFile fs2 ''config.json'' (JSON_stringify l empty_config)))"

definition prepareLogfile :: "lib \<Rightarrow> filesys \<Rightarrow> reader \<Rightarrow> reader" where
  "prepareLogfile l fs st =
     (case readFileSync fs (currLogFile st) of
        None \<Rightarrow> st\<lparr>logs := empty_logs\<rparr>
      | Some data \<Rightarrow>
     (case JSON_parse l data of
        None \<Rightarrow> st\<lparr>logs := empty_logs\<rparr>
      | Some file \<Rightarrow>
          if truthy (get_prop_opt file ''logs'') then st\<lparr>logs := file\<rparr>
          else st\<lparr>logs := (if file = JNull \<or> file = JUndefined then empty_logs else file)\<rparr>))"

definition prepareLogJsonFile :: "lib \<Rightarrow> filesys \<Rightarrow> reader \<Rightarrow> reader" where
  "prepareLogJsonFile l fs st =
     (case readFileSync fs (currLogFile st) of
        None \<Rightarrow> st\<lparr>logsJson := empty_logs\<rparr>
      | Some data \<Rightarrow>
     (case JSON_parse l data of
        None \<Rightarrow> st\<lparr>logsJson := empty_logs\<rparr>
      | Some file \<Rightarrow>
          if truthy (get_prop_opt file ''logs'') then st\<lparr>logsJson := file\<rparr>
          else st\<lparr>logsJson := (if file = JNull \<or> file = JUndefined then empty_logs else file)\<rparr>))"

definition prepareIndexFile :: "lib \<Rightarrow> filesys \<Rightarrow> 'a writer_scheme \<Rightarrow> 'a writer_scheme" where
  "prepareIndexFile l fs st =
     (case readFileSync fs ''index.json'' of
        None \<Rightarrow> st\<lparr>index := empty_index\<rparr>
      | Some data \<Rightarrow>
     (case JSON_parse l data of
        None \<Rightarrow> st\<lparr>index := empty_index\<rparr>
      | Some v \<Rightarrow> st\<lparr>index := v\<rparr>))"

definition prepareConfigFile :: "lib \<Rightarrow> filesys \<Rightarrow> reader \<Rightarrow> reader" where
  "prepareConfigFile l fs st =
     (case readFileSync fs ''config.json'' of
        None \<Rightarrow> st\<lparr>config := empty_config\<rparr>
      | Some data \<Rightarrow>
     (case JSON_parse l data of
        None \<Rightarrow> st\<lparr>config := empty_config\<rparr>
      | Some v \<Rightarrow> st\<lparr>config := v\<rparr>))"

text \<open>
  \<^verbatim>\<open>obfuscate\<close>: the callback of \<^verbatim>\<open>forEach\<close> on the object \<^verbatim>\<open>log.body\<close>, the loop over
  the filtered names, then the method on the store. It is given the address of
  \<^verbatim>\<open>log.body\<close>, the only part of \<^verbatim>\<open>log\<close> it reads or writes.
\<close>

definition redact_one :: "props \<Rightarrow> string \<Rightarrow> props" where
  "redact_one body e = (if member_truthy body e then assign_member body e (JStr ''***'') else body)"

definition obfuscate_fields :: "string list \<Rightarrow> props \<Rightarrow> props" where
  "obfuscate_fields names body =
     foldl redact_one body (filter (\<lambda>field. field \<noteq> ''occured'') names)"

definition obfuscate :: "config \<Rightarrow> nat \<Rightarrow> heap \<Rightarrow> heap" where
  "obfuscate cfg body h = store h body (obfuscate_fields (cfg_obfuscate cfg) (cells h body))"

text \<open>\<^verbatim>\<open>delete obj[k]\<close>.\<close>

definition delete_prop :: "props \<Rightarrow> string \<Rightarrow> props" where
  "delete_prop ps k = filter (\<lambda>(k', v). k' \<noteq> k) ps"

text \<open>
  The first part of \<^verbatim>\<open>prepareLog\<close> and of \<^verbatim>\<open>prepareJsonLog\<close> (the same text in both, and
  in \<^verbatim>\<open>FileWriter.prepareLog\<close>): copy the headers, build \<^verbatim>\<open>body\<close>, obfuscate it, and
  format \<^verbatim>\<open>logBody\<close>. \<open>now\<close> is the value of \<^verbatim>\<open>Date.now()\<close>. Object literals
  \<^verbatim>\<open>{}\<close> are allocated in evaluation order.
\<close>

definition formatLogBody :: "config \<Rightarrow> lib \<Rightarrow> nat \<Rightarrow> request \<Rightarrow> heap \<Rightarrow> heap \<times> jsval" where
  "formatLogBody cfg l now req h =
     (let (filteredHeaders, h1) = alloc h (spread [] (JObj (cells h (req_headers req))));
          h2 = store h1 filteredHeaders (delete_prop (cells h1 filteredHeaders) ''content-length'');
          (body, h3) = (if cfg_body cfg
                        then (case req_body req of Some a \<Rightarrow> (a, h2) | None \<Rightarrow> alloc h2 [])
                        else alloc h2 []);
          queryParams = (if cfg_queryParams cfg then req_query req else []);
          (headers, h4) = (if cfg_headers cfg then (filteredHeaders, h3) else alloc h3 []);
          h5 = obfuscate cfg body h4
      in (h5,
          JObj [(''method'', if cfg_method cfg then JStr (req_method req) else JUndefined),
                (''body'', JStr (JSON_stringify l (JObj (cells h5 body)))),
                (''queryParams'', JStr (JSON_stringify l (JObj queryParams))),
                (''headers'', JStr (JSON_stringify l (JObj (cells h5 headers)))),
                (''ip'', if cfg_ip cfg
                         then (case req_ip req of Some a \<Rightarrow> JStr a | None \<Rightarrow> JUndefined)
                         else JUndefined),
                (''occured'', JStr (toISOString l now))]))"

text \<open>\<open>uuid\<close> is the value of \<^verbatim>\<open>randomUUID()\<close>.\<close>

definition prepareLog ::
  "config \<Rightarrow> lib \<Rightarrow> string \<Rightarrow> nat \<Rightarrow> request \<Rightarrow> heap \<Rightarrow> 'a writer_scheme
     \<Rightarrow> error + heap \<times> 'a writer_scheme" where
  "prepareLog cfg l uuid now req h st =
     (let (h', logBody) = formatLogBody cfg l now req h in
      case encodeLog l logBody of
        None \<Rightarrow> Inl EncodeError
      | Some enc \<Rightarrow>
     (let logProto = JObj [(uuid, JStr enc)];
          st1 = st\<lparr>currLogSize := length (JSON_stringify l logProto)\<rparr> in
      case get_prop (logs st1) ''logs'' of
        Inl e \<Rightarrow> Inl e
      | Inr old \<Rightarrow>
     (case set_prop (logs st1) ''logs'' (JObj (spread (spread [] old) logProto)) of
        Inl e \<Rightarrow> Inl e
      | Inr lg \<Rightarrow>
     (let st2 = st1\<lparr>logs := lg\<rparr> in
      case get_prop (index st2) ''indexes'' of
        Inl e \<Rightarrow> Inl e
      | Inr ix \<Rightarrow>
     (case set_prop ix uuid (JStr (path_resolve l (cfg_path cfg) ''index.json'')) of
        Inl e \<Rightarrow> Inl e
      | Inr ix' \<Rightarrow> Inr (h', st2\<lparr>index := mutated_at (index st2) ''indexes'' ix'\<rparr>))))))"

definition prepareJsonLog ::
  "config \<Rightarrow> lib \<Rightarrow> string \<Rightarrow> nat \<Rightarrow> request \<Rightarrow> heap \<Rightarrow> reader \<Rightarrow> error + heap \<times> reader" where
  "prepareJsonLog cfg l uuid now req h st =
     (let (h', logBody) = formatLogBody cfg l now req h;
          logProto = JObj [(uuid, logBody)];
          st1 = st\<lparr>currLogSize := length (JSON_stringify l logProto)\<rparr> in
      case get_prop (logsJson st1) ''logs'' of
        Inl e \<Rightarrow> Inl e
      | Inr old \<Rightarrow>
     (case set_prop (logsJson st1) ''logs'' (JObj (spread (spread [] old) logProto)) of
        Inl e \<Rightarrow> Inl e
      | Inr lg \<Rightarrow>
     (let st2 = st1\<lparr>logsJson := lg\<rparr> in
      case get_prop (index st2) ''indexes'' of
        Inl e \<Rightarrow> Inl e
      | Inr ix \<Rightarrow>
     (case set_prop ix uuid (JStr (path_resolve l (cfg_path cfg) ''index.json'')) of
        Inl e \<Rightarrow> Inl e
      | Inr ix' \<Rightarrow> Inr (h', st2\<lparr>index := mutated_at (index st2) ''indexes'' ix'\<rparr>)))))"

definition prepareConfig :: "config \<Rightarrow> reader \<Rightarrow> error + reader" where
  "prepareConfig cfg st =
     (case set_prop (config st) ''disableProto''
             (case cfg_disableProto cfg of None \<Rightarrow> JUndefined | Some b \<Rightarrow> JBool b) of
        Inl e \<Rightarrow> Inl e
      | Inr c \<Rightarrow> Inr (st\<lparr>config := c\<rparr>))"

text \<open>
  \<^verbatim>\<open>saveFiles\<close>: the first write that throws ends the \<^verbatim>\<open>try\<close> block; the error is logged
  and the files written so far stay written.
\<close>

definition saveFiles :: "config \<Rightarrow> lib \<Rightarrow> filesys \<Rightarrow> reader \<Rightarrow> filesys" where
  "saveFiles cfg l fs st =
     (case writeFileSync fs (currLogFile st)
             (JSON_pretty l (if cfg_disableProto cfg = Some True then logsJson st else logs st)) of
        None \<Rightarrow> fs
      | Some fs1 \<Rightarrow>
     (case writeFileSync fs1 ''index.json'' (JSON_pretty l (index st)) of
        None \<Rightarrow> fs1
      | Some fs2 \<Rightarrow>
     (case writeFileSync fs2 ''config.json'' (JSON_pretty l (config st)) of
        None \<Rightarrow> fs2
      | Some fs3 \<Rightarrow> fs3)))"

text \<open>
  \<^verbatim>\<open>incrementLogFile\<close>: without a match the error is logged and execution goes on to
  \<^verbatim>\<open>match![0]\<close>, which reads a property of \<^verbatim>\<open>null\<close> and throws a \<^verbatim>\<open>TypeError\<close>.
\<close>

definition incrementLogFile :: "string \<Rightarrow> 'a writer_scheme \<Rightarrow> error + 'a writer_scheme" where
  "incrementLogFile logName st =
     (case match_digits logName of
        None \<Rightarrow> Inl TypeError
      | Some m \<Rightarrow> Inr (st\<lparr>currLogFile := replace_digits logName (toString (parseInt m + 1))\<rparr>))"

definition cleanLogs :: "'a writer_scheme \<Rightarrow> error + 'a writer_scheme" where
  "cleanLogs st =
     (case get_prop (logs st) ''logs'' of
        Inl e \<Rightarrow> Inl e
      | Inr v \<Rightarrow>
     (case Object_entries v of
        Inl e \<Rightarrow> Inl e
      | Inr entries \<Rightarrow>
     (let lastLog = slice_last entries in
      case set_prop (logs st) ''logs'' (JObj (spread [] (JObj (spread [] (JObj lastLog))))) of
        Inl e \<Rightarrow> Inl e
      | Inr lg \<Rightarrow> Inr (st\<lparr>logs := lg\<rparr>))))"

definition checkFileSize :: "filesys \<Rightarrow> string \<Rightarrow> reader \<Rightarrow> error + reader" where
  "checkFileSize fs logName st =
     (case statSync_size fs logName of
        None \<Rightarrow> Inl ENOENT
      | Some sz \<Rightarrow>
          if sz + currLogSize st > 5000
          then (case incrementLogFile logName st of Inl e \<Rightarrow> Inl e | Inr st1 \<Rightarrow> cleanLogs st1)
          else Inr st)"

text \<open>
  The public methods. A result \<open>Inl e\<close> is the exception that leaves the method.
  \<^verbatim>\<open>save\<close> and \<^verbatim>\<open>saveJson\<close> run the bootstrap \<^verbatim>\<open>pre\<close> first and list the directory
  afterwards; \<^verbatim>\<open>read\<close> lists the directory (when no file name is given) before the
  bootstrap. The reader
  passed in is the object the method is called on (\<open>new_reader\<close> for the fresh object each
  request of the middleware creates).
\<close>

definition save ::
  "config \<Rightarrow> lib \<Rightarrow> string \<Rightarrow> nat \<Rightarrow> request \<Rightarrow> heap \<Rightarrow> filesys \<Rightarrow> reader
     \<Rightarrow> error + heap \<times> filesys \<times> reader" where
  "save cfg l uuid now req h fs st =
     (case pre l fs st of
        Inl e \<Rightarrow> Inl e
      | Inr fs1 \<Rightarrow>
     (case fetchCurrentLogFile fs1 None st of
        Inl e \<Rightarrow> Inl e
      | Inr st1 \<Rightarrow>
     (let st2 = prepareLogfile l fs1 st1;
          st3 = prepareIndexFile l fs1 st2;
          st4 = prepareConfigFile l fs1 st3 in
      case prepareLog cfg l uuid now req h st4 of
        Inl e \<Rightarrow> Inl e
      | Inr (h', st5) \<Rightarrow>
     (case prepareConfig cfg st5 of
        Inl e \<Rightarrow> Inl e
      | Inr st6 \<Rightarrow>
     (case checkFileSize fs1 (currLogFile st6) st6 of
        Inl e \<Rightarrow> Inl e
      | Inr st7 \<Rightarrow> Inr (h', saveFiles cfg l fs1 st7, st7))))))"

definition saveJson ::
  "config \<Rightarrow> lib \<Rightarrow> string \<Rightarrow> nat \<Rightarrow> request \<Rightarrow> heap \<Rightarrow> filesys \<Rightarrow> reader
     \<Rightarrow> error + heap \<times> filesys \<times> reader" where
  "saveJson cfg l uuid now req h fs st =
     (case pre l fs st of
        Inl e \<Rightarrow> Inl e
      | Inr fs1 \<Rightarrow>
     (case fetchCurrentLogFile fs1 None st of
        Inl e \<Rightarrow> Inl e
      | Inr st1 \<Rightarrow>
     (let st2 = prepareLogJsonFile l fs1 st1;
          st3 = prepareIndexFile l fs1 st2;
          st4 = prepareConfigFile l fs1 st3 in
      case prepareJsonLog cfg l uuid now req h st4 of
        Inl e \<Rightarrow> Inl e
      | Inr (h', st5) \<Rightarrow>
     (case prepareConfig cfg st5 of
        Inl e \<Rightarrow> Inl e
      | Inr st6 \<Rightarrow>
     (case checkFileSize fs1 (currLogFile st6) st6 of
        Inl e \<Rightarrow> Inl e
      | Inr st7 \<Rightarrow> Inr (h', saveFiles cfg l fs1 st7, st7))))))"

definition read ::
  "lib \<Rightarrow> filesys \<Rightarrow> string option \<Rightarrow> reader \<Rightarrow> error + filesys \<times> reader \<times> jsval" where
  "read l fs fileName st =
     (case fetchCurrentLogFile fs fileName st of
        Inl e \<Rightarrow> Inl e
      | Inr st1 \<Rightarrow>
     (case pre l fs st1 of
        Inl e \<Rightarrow> Inl e
      | Inr fs1 \<Rightarrow>
     (case validateFile fs1 ''index.json'' (JSON_stringify l empty_index) of
        Inl e \<Rightarrow> Inl e
      | Inr fs2 \<Rightarrow>
     (case validateFile fs2 (currLogFile st1) (JSON_stringify l empty_logs) of
        Inl e \<Rightarrow> Inl e
      | Inr fs3 \<Rightarrow>
          (let st2 = prepareLogfile l fs3 st1 in Inr (fs3, st2, logs st2))))))"

section \<open>FileWriter\<close>

text \<open>
  \<^verbatim>\<open>validateFile\<close>, \<^verbatim>\<open>prepareLog\<close>, \<^verbatim>\<open>prepareIndexFile\<close>, \<^verbatim>\<open>obfuscate\<close>,
  \<^verbatim>\<open>cleanLogs\<close> and \<^verbatim>\<open>incrementLogFile\<close> have the same text as in \<^verbatim>\<open>FileReader\<close> and
  are the definitions above. The methods below differ.
\<close>


definition FileWriter_checkFileSize :: "filesys \<Rightarrow> string \<Rightarrow> writer \<Rightarrow> error + writer" where
  "FileWriter_checkFileSize fs logName st =
     (case statSync_size fs logName of
        None \<Rightarrow> Inl ENOENT
      | Some sz \<Rightarrow>
          if sz + currLogSize st > 50000000000
          then (case incrementLogFile logName st of Inl e \<Rightarrow> Inl e | Inr st1 \<Rightarrow> cleanLogs st1)
          else Inr st)"

definition FileWriter_saveFiles :: "lib \<Rightarrow> filesys \<Rightarrow> writer \<Rightarrow> filesys" where
  "FileWriter_saveFiles l fs st =
     (case writeFileSync fs (currLogFile st) (JSON_pretty l (logs st)) of
        None \<Rightarrow> fs
      | Some fs1 \<Rightarrow>
     (case writeFileSync fs1 ''index.json'' (JSON_pretty l (index st)) of
        None \<Rightarrow> fs1
      | Some fs2 \<Rightarrow> fs2))"

text \<open>
  \<^verbatim>\<open>FileController\<close> is not among the modelled files; the three methods \<^verbatim>\<open>FileWriter\<close>
  calls on it are parameters.
\<close>

record controller =
  ctl_initDirectories :: "filesys \<Rightarrow> filesys"
  ctl_fetchCurrentLogFile :: "filesys \<Rightarrow> string"
  ctl_prepareLogfile :: "filesys \<Rightarrow> string \<Rightarrow> jsval"

definition FileWriter_pre :: "controller \<Rightarrow> lib \<Rightarrow> filesys \<Rightarrow> writer \<Rightarrow> error + filesys" where
  "FileWriter_pre ctl l fs st =
     (let fs0 = ctl_initDirectories ctl fs in
      case validateFile fs0 ''index.json'' (JSON_stringify l empty_index) of
        Inl e \<Rightarrow> Inl e
      | Inr fs1 \<Rightarrow> validateFile fs1 (currLogFile st) (JSON_stringify l empty_logs))"

definition FileWriter_init ::
  "controller \<Rightarrow> config \<Rightarrow> lib \<Rightarrow> string \<Rightarrow> nat \<Rightarrow> request \<Rightarrow> heap \<Rightarrow> filesys \<Rightarrow> writer
     \<Rightarrow> error + heap \<times> filesys \<times> writer" where
  "FileWriter_init ctl cfg l uuid now req h fs st =
     (case FileWriter_pre ctl l fs st of
        Inl e \<Rightarrow> Inl e
      | Inr fs1 \<Rightarrow>
     (let st1 = st\<lparr>currLogFile := ctl_fetchCurrentLogFile ctl fs1\<rparr>;
          st2 = st1\<lparr>logs := ctl_prepareLogfile ctl fs1 (currLogFile st1)\<rparr>;
          st3 = prepareIndexFile l fs1 st2 in
      case prepareLog cfg l uuid now req h st3 of
        Inl e \<Rightarrow> Inl e
      | Inr (h', st4) \<Rightarrow>
     (case FileWriter_checkFileSize fs1 (currLogFile st4) st4 of
        Inl e \<Rightarrow> Inl e
      | Inr st5 \<Rightarrow> Inr (h', FileWriter_saveFiles l fs1 st5, st5))))"

section \<open>Notions used in the statements\<close>

text \<open>
  The files \<^verbatim>\<open>pre\<close> validates, in its order, and what it means that a file is absent and
  cannot be created.
\<close>

definition bootstrap_files :: "'a writer_scheme \<Rightarrow> string list" where
  "bootstrap_files st = [''index.json'', currLogFile st, ''config.json'']"

definition uncreatable :: "filesys \<Rightarrow> string \<Rightarrow> bool" where
  "uncreatable fs name = (\<not> existsSync fs name \<and> \<not> (dir_exists fs \<and> writable fs name))"

text \<open>
  A name is settled in a body when redacting it changes nothing: it already holds the
  marker, or it is not truthy, or it is the inherited \<^verbatim>\<open>__proto__\<close>.
\<close>

definition settled :: "props \<Rightarrow> string \<Rightarrow> bool" where
  "settled body e =
     (map_of body e = Some (JStr ''***'') \<or> \<not> member_truthy body e
      \<or> (map_of body e = None \<and> e = ''__proto__''))"

text \<open>
  The state a capture has loaded from disk when it starts to prepare the entry, in
  \<^verbatim>\<open>save\<close> and in \<^verbatim>\<open>saveJson\<close>; \<open>fs\<close> is the directory after the bootstrap, which
  exists, so that listing it succeeds.
\<close>

definition loaded_binary :: "lib \<Rightarrow> filesys \<Rightarrow> reader \<Rightarrow> reader" where
  "loaded_binary l fs st =
     (case fetchCurrentLogFile fs None st of
        Inl e \<Rightarrow> st
      | Inr st1 \<Rightarrow> prepareConfigFile l fs (prepareIndexFile l fs (prepareLogfile l fs st1)))"

definition loaded_textual :: "lib \<Rightarrow> filesys \<Rightarrow> reader \<Rightarrow> reader" where
  "loaded_textual l fs st =
     (case fetchCurrentLogFile fs None st of
        Inl e \<Rightarrow> st
      | Inr st1 \<Rightarrow> prepareConfigFile l fs (prepareIndexFile l fs (prepareLogJsonFile l fs st1)))"

text \<open>The entry ids of a segment value and of an index value.\<close>

definition segment_ids :: "jsval \<Rightarrow> string set" where
  "segment_ids lg = fst ` set (own_entries (get_prop_opt lg ''logs''))"


section \<open>Test fixtures\<close>

text \<open>
  Concrete stand-ins for the library functions, used only to evaluate the model on explicit
  inputs. \<open>render\<close> prints a value the way \<^verbatim>\<open>JSON.stringify\<close> does for values built from
  objects, arrays, booleans, \<^verbatim>\<open>null\<close> and strings that need no escaping (a property whose
  value is \<^verbatim>\<open>undefined\<close> is omitted); numbers are outside its range and print as \<open>0\<close>.
  The fixture uses it for the indented form too: no evaluation below depends on white space.
  \<open>test_parse\<close> inverts \<open>render\<close> on the listed values and rejects every other text used
  below.
\<close>

definition dq :: char where
  "dq = CHR 0x22"

fun join_commas :: "string list \<Rightarrow> string" where
  "join_commas [] = []"
| "join_commas [x] = x"
| "join_commas (x # y # zs) = x @ '','' @ join_commas (y # zs)"

fun render :: "jsval \<Rightarrow> string"
  and render_list :: "jsval list \<Rightarrow> string list"
  and render_props :: "(string \<times> jsval) list \<Rightarrow> string list" where
  "render JUndefined = ''null''"
| "render JNull = ''null''"
| "render (JBool b) = (if b then ''true'' else ''false'')"
| "render (JNum x) = ''0''"
| "render (JStr s) = dq # s @ [dq]"
| "render (JArr xs ex) = ''['' @ join_commas (render_list xs) @ '']''"
| "render (JObj ps) = ''{'' @ join_commas (render_props ps) @ ''}''"
| "render_list [] = []"
| "render_list (x # xs) = render x # render_list xs"
| "render_props [] = []"
| "render_props (p # ps) =
     (if snd p = JUndefined then render_props ps
      else (dq # fst p @ [dq] @ '':'' @ render (snd p)) # render_props ps)"

definition test_parse :: "string \<Rightarrow> jsval option" where
  "test_parse s =
     List.find (\<lambda>v. render v = s)
       [empty_logs, empty_index, empty_config,
        JObj [(''disableProto'', JBool True)],
        JObj [(''foo'', JStr ''bar'')],
        JObj [(''logs'', JObj [(''a'', JStr ''x'')])]]"

definition test_lib :: lib where
  "test_lib = \<lparr>JSON_parse = test_parse, JSON_stringify = render, JSON_pretty = render,
                encodeLog = (\<lambda>v. Some ''CgNHRVQ=''),
                toISOString = (\<lambda>t. ''2024-01-01T00:00:00.000Z''),
                path_resolve = (\<lambda>a b. a @ ''/'' @ b)\<rparr>"

definition test_config :: config where
  "test_config = \<lparr>cfg_path = ''/srv/Toaster'', cfg_method = True, cfg_body = True,
                   cfg_queryParams = True, cfg_headers = False, cfg_ip = False,
                   cfg_obfuscate = [''password''], cfg_disableProto = Some False\<rparr>"

definition test_uuid :: string where
  "test_uuid = ''123e4567-e89b-42d3-a456-426614174000''"

text \<open>A request with body \<^verbatim>\<open>{password: "x", q: "y"}\<close> at address 0 and headers at address 1.\<close>

definition test_heap :: heap where
  "test_heap = \<lparr>cells = (\<lambda>a. if a = 0 then [(''password'', JStr ''x''), (''q'', JStr ''y'')]
                             else if a = 1 then [(''host'', JStr ''h''), (''content-length'', JStr ''21'')]
                             else []),
                 next_addr = 2\<rparr>"

definition test_request :: request where
  "test_request = \<lparr>req_method = ''POST'', req_body = Some 0, req_query = [], req_headers = 1,
                    req_ip = Some ''127.0.0.1''\<rparr>"

text \<open>An existing directory in which every write succeeds, holding the given files.\<close>

definition dir_of :: "(string \<times> string) list \<Rightarrow> filesys" where
  "dir_of fl = \<lparr>files = fl, writable = (\<lambda>name. True), dir_exists = True, can_mkdir = True\<rparr>"

text \<open>
  An existing, empty directory in which no file can be created; a storage directory that
  is missing and can be created (a first use); one that is missing and cannot be created;
  and a directory holding only an index.
\<close>

definition locked_dir :: filesys where
  "locked_dir = \<lparr>files = [], writable = (\<lambda>name. False), dir_exists = True, can_mkdir = False\<rparr>"

definition fresh_dir :: filesys where
  "fresh_dir = \<lparr>files = [], writable = (\<lambda>name. True), dir_exists = False, can_mkdir = True\<rparr>"

definition missing_dir :: filesys where
  "missing_dir = \<lparr>files = [], writable = (\<lambda>name. True), dir_exists = False, can_mkdir = False\<rparr>"

definition index_only_dir :: filesys where
  "index_only_dir = dir_of [(''index.json'', render empty_index)]"

text \<open>The directory of the segment selection example, with the index and the snapshot.\<close>

definition segments_dir :: filesys where
  "segments_dir =
     dir_of [(''logs_0.json'', render empty_logs), (''index.json'', render empty_index),
             (''logs_7.json'', render empty_logs), (''config.json'', render empty_config),
             (''logs_3.json'', render empty_logs)]"

text \<open>The entry preparation alone, with body capture enabled and disabled.\<close>

definition test_prepared :: "error + heap \<times> reader" where
  "test_prepared = prepareLog test_config test_lib test_uuid 0 test_request test_heap new_reader"

definition test_prepared_nobody :: "error + heap \<times> reader" where
  "test_prepared_nobody =
     prepareLog (test_config\<lparr>cfg_body := False\<rparr>) test_lib test_uuid 0 test_request test_heap
       new_reader"

text \<open>
  A reader that has loaded a segment with one entry, the preparation of a further entry on
  it, a segment file of 5000 bytes and one of 2 bytes.
\<close>

definition entry_reader :: reader where
  "entry_reader = new_reader\<lparr>logs := JObj [(''logs'', JObj [(''a'', JStr ''x'')])],
                              index := JObj [(''indexes'', JObj [(''a'', JStr ''/srv/Toaster/index.json'')])]\<rparr>"

definition test_prepared_entry :: "error + heap \<times> reader" where
  "test_prepared_entry =
     prepareLog test_config test_lib test_uuid 0 test_request test_heap entry_reader"

definition test_configured_entry :: "error + reader" where
  "test_configured_entry = prepareConfig test_config (snd (projr test_prepared_entry))"

definition full_dir :: filesys where
  "full_dir = dir_of [(''logs_0.json'', replicate 5000 CHR ''x'')]"

definition small_dir :: filesys where
  "small_dir = dir_of [(''logs_0.json'', ''{}'')]"

text \<open>One capture by a fresh reader into an empty, writable directory.\<close>

definition test_capture :: "error + heap \<times> filesys \<times> reader" where
  "test_capture =
     save test_config test_lib test_uuid 0 test_request test_heap (dir_of []) new_reader"

definition text_config :: config where
  "text_config = test_config\<lparr>cfg_disableProto := Some True\<rparr>"



text \<open>
  A store in textual mode whose current segment \<^verbatim>\<open>logs_0.json\<close> holds one entry \<^verbatim>\<open>a\<close>
  with the text \<open>pad\<close> as its value, \<^verbatim>\<open>{"logs":{"a":"<pad>"}}\<close>; the parser of the
  fixture also reads that segment text.
\<close>

definition big_segment :: "string \<Rightarrow> jsval" where
  "big_segment pad = JObj [(''logs'', JObj [(''a'', JStr pad)])]"

definition big_lib :: "string \<Rightarrow> lib" where
  "big_lib pad = test_lib\<lparr>JSON_parse :=
      (\<lambda>s. if s = render (big_segment pad) then Some (big_segment pad) else test_parse s)\<rparr>"

definition big_dir :: "string \<Rightarrow> filesys" where
  "big_dir pad = dir_of [(''logs_0.json'', render (big_segment pad)),
                        (''index.json'', render empty_index),
                        (''config.json'', render empty_config)]"

section \<open>Facts about decimal numerals\<close>

lemma below_ten: "(d::nat) < 10 \<Longrightarrow> d \<in> {0,1,2,3,4,5,6,7,8,9}"
  by auto

lemma is_digit_digit_char: "d < 10 \<Longrightarrow> is_digit (digit_char d)"
  unfolding is_digit_def digit_char_def by (rule nth_mem) simp

lemma digit_val_digit_char: "d < 10 \<Longrightarrow> digit_val (digit_char d) = d"
  by (drule below_ten) (auto simp: digit_val_def digit_char_def)

lemma toString_digits: "\<forall>c \<in> set (toString n). is_digit c"
proof (induction n rule: toString.induct)
  case (1 n)
  show ?case
  proof (cases "n < 10")
    case True
    then show ?thesis
      by (subst toString.simps) (simp add: is_digit_digit_char)
  next
    case False
    with "1" show ?thesis
      by (subst toString.simps) (simp add: is_digit_digit_char)
  qed
qed

lemma toString_nonempty: "toString n \<noteq> []"
  by (subst toString.simps) simp

lemma parseInt_snoc: "parseInt (ds @ [c]) = 10 * parseInt ds + digit_val c"
  by (simp add: parseInt_def)

lemma parseInt_toString: "parseInt (toString n) = n"
proof (induction n rule: toString.induct)
  case (1 n)
  show ?case
  proof (cases "n < 10")
    case True
    then show ?thesis
      by (subst toString.simps) (simp add: parseInt_def digit_val_digit_char)
  next
    case False
    with "1" have "parseInt (toString (n div 10)) = n div 10" by simp
    with False show ?thesis
      by (subst toString.simps) (simp add: parseInt_snoc digit_val_digit_char)
  qed
qed

lemma match_digits_run:
  assumes "\<forall>c \<in> set p. \<not> is_digit c" and "\<forall>c \<in> set ds. is_digit c" and "ds \<noteq> []"
    and "q = [] \<or> \<not> is_digit (hd q)"
  shows "match_digits (p @ ds @ q) = Some ds"
proof -
  have d: "dropWhile (\<lambda>c. \<not> is_digit c) (p @ ds @ q) = ds @ q"
    using assms(1,2,3) by (cases ds) (simp_all add: dropWhile_append3 dropWhile_append2)
  have t: "takeWhile is_digit (ds @ q) = ds"
    using assms(2,4) by (cases q) (simp_all add: takeWhile_tail)
  show ?thesis
    using assms(3) by (simp add: match_digits_def d t)
qed

lemma match_digits_segment_name: "match_digits (segment_name n) = Some (toString n)"
proof -
  have p: "\<forall>c \<in> set ''logs_''. \<not> is_digit c"
    by (simp add: is_digit_def)
  have q: "''.json'' = [] \<or> \<not> is_digit (hd ''.json'')"
    by (simp add: is_digit_def)
  have "match_digits (''logs_'' @ toString n @ ''.json'') = Some (toString n)"
    using p toString_digits toString_nonempty q by (rule match_digits_run)
  then show ?thesis by (simp add: segment_name_def)
qed

section \<open>Rotation with a segment name that has no digits\<close>

text \<open>
  Claim C2 says that a segment name without a numeric suffix makes the rotation step log an
  error and skip rotation, with no exception leaving the rotation check. The code logs the
  error but does not return: it goes on to read \<^verbatim>\<open>match![0]\<close> on \<^verbatim>\<open>null\<close>. For the
  name \<^verbatim>\<open>logs.json\<close> and a segment of 5001 bytes, \<^verbatim>\<open>FileReader.checkFileSize\<close> ends in a
  \<^verbatim>\<open>TypeError\<close>, and so does \<^verbatim>\<open>incrementLogFile\<close> on a \<^verbatim>\<open>FileWriter\<close>.
\<close>

theorem C2_malformed_name_throws:
  "checkFileSize (dir_of [(''logs.json'', replicate 5001 CHR ''x'')]) ''logs.json''
     (new_reader\<lparr>currLogFile := ''logs.json''\<rparr>) = Inl TypeError
   \<and> incrementLogFile ''logs.json'' (new_writer\<lparr>currLogFile := ''logs.json''\<rparr>) = Inl TypeError"
  by (simp add: checkFileSize_def statSync_size_def dir_of_def incrementLogFile_def
      match_digits_def is_digit_def new_reader_def)

section \<open>Loading a segment whose content lacks the logs field\<close>

text \<open>
  Claim C3 says that content which parses to a value without the top-level \<^verbatim>\<open>logs\<close> field
  is replaced by the empty default, so that retrieval returns an empty entry set. In
  \<^verbatim>\<open>prepareLogfile\<close> the branch for such content assigns \<^verbatim>\<open>file ?? { logs: {} }\<close>, which
  is the default only when the content is \<^verbatim>\<open>null\<close>. For a segment file holding
  \<^verbatim>\<open>{"foo":"bar"}\<close>, \<^verbatim>\<open>read\<close> returns that very object: it is not the default and it has
  no \<^verbatim>\<open>logs\<close> field at all. (No exception is raised.)
\<close>

theorem C3_malformed_segment_kept:
  "map_sum id (\<lambda>(fs, st, v). (files fs, st, v))
     (read test_lib
        (dir_of [(''index.json'', render empty_index),
                 (''logs_0.json'', render (JObj [(''foo'', JStr ''bar'')])),
                 (''config.json'', render empty_config)])
        None new_reader)
   = Inr ([(''index.json'', render empty_index),
           (''logs_0.json'', render (JObj [(''foo'', JStr ''bar'')])),
           (''config.json'', render empty_config)],
          new_reader\<lparr>logs := JObj [(''foo'', JStr ''bar'')]\<rparr>,
          JObj [(''foo'', JStr ''bar'')])
   \<and> JObj [(''foo'', JStr ''bar'')] \<noteq> empty_logs
   \<and> get_prop (JObj [(''foo'', JStr ''bar'')]) ''logs'' = Inr JUndefined"
  by code_simp

section \<open>FileWriter against the binary path of FileReader\<close>

lemma truncate_incrementLogFile:
  "map_sum id writer.truncate (incrementLogFile n st) = incrementLogFile n (writer.truncate st)"
  by (simp add: incrementLogFile_def writer.truncate_def split: option.splits)

lemma truncate_cleanLogs:
  "map_sum id writer.truncate (cleanLogs st) = cleanLogs (writer.truncate st)"
  by (simp add: cleanLogs_def writer.truncate_def Let_def split: sum.splits)

lemma truncate_rotate:
  "map_sum id writer.truncate
     (case incrementLogFile n st of Inl e \<Rightarrow> Inl e | Inr st1 \<Rightarrow> cleanLogs st1)
   = (case incrementLogFile n (writer.truncate st) of Inl e \<Rightarrow> Inl e | Inr st1 \<Rightarrow> cleanLogs st1)"
proof (cases "incrementLogFile n st")
  case (Inl e)
  with truncate_incrementLogFile [of n st]
  have "incrementLogFile n (writer.truncate st) = Inl e" by simp
  with Inl show ?thesis by simp
next
  case (Inr st1)
  with truncate_incrementLogFile [of n st]
  have "incrementLogFile n (writer.truncate st) = Inr (writer.truncate st1)" by simp
  with Inr show ?thesis by (simp add: truncate_cleanLogs)
qed

text \<open>
  Claim C9 says that the write-only class and the binary path of the read/write class take
  the same rotation decision with the same threshold and persist the same files. The
  thresholds differ: \<^verbatim>\<open>FileReader.checkFileSize\<close> rotates above 5000 bytes,
  \<^verbatim>\<open>FileWriter.checkFileSize\<close> above 50000000000. On a segment of 6000 bytes the reader
  moves to \<^verbatim>\<open>logs_1.json\<close> and the writer stays on \<^verbatim>\<open>logs_0.json\<close>.
\<close>

theorem C9_thresholds_differ:
  "map_sum id currLogFile
     (checkFileSize (dir_of [(''logs_0.json'', replicate 6000 CHR ''x'')]) ''logs_0.json'' new_reader)
     = Inr ''logs_1.json''
   \<and> map_sum id currLogFile
     (FileWriter_checkFileSize (dir_of [(''logs_0.json'', replicate 6000 CHR ''x'')]) ''logs_0.json''
        (writer.truncate new_reader))
     = Inr ''logs_0.json''"
proof -
  have s: "statSync_size (dir_of [(''logs_0.json'', replicate 6000 CHR ''x'')]) ''logs_0.json'' = Some 6000"
    by (simp add: statSync_size_def dir_of_def)
  have z: "currLogSize new_reader = 0" "currLogSize (writer.truncate new_reader) = 0"
    by (simp_all add: new_reader_def writer.truncate_def)
  have r: "map_sum id currLogFile
             (case incrementLogFile ''logs_0.json'' new_reader of
                Inl e \<Rightarrow> Inl e | Inr st1 \<Rightarrow> cleanLogs st1) = Inr ''logs_1.json''"
    by code_simp
  have w: "currLogFile (writer.truncate new_reader) = ''logs_0.json''"
    by (simp add: new_reader_def writer.truncate_def)
  show ?thesis
    by (simp add: checkFileSize_def FileWriter_checkFileSize_def s z r w)
qed

text \<open>
  Claim C9, amended: started from the same in-memory state, the two rotation checks give
  the same result whenever the combined size is at most 5000 bytes or above 50000000000
  bytes (between the two thresholds only the reader rotates); and with
  \<^verbatim>\<open>disableProto\<close> not set, the two \<^verbatim>\<open>saveFiles\<close> leave every file other than
  \<^verbatim>\<open>config.json\<close>, which only the reader writes, with the same content.
\<close>

theorem C9_variants_agree_outside_gap:
  assumes "statSync_size fs logName = Some sz"
    and "sz + currLogSize st \<le> 5000 \<or> 50000000000 < sz + currLogSize st"
    and "cfg_disableProto cfg \<noteq> Some True"
    and "f \<noteq> ''config.json''"
  shows "map_sum id writer.truncate (checkFileSize fs logName st)
           = FileWriter_checkFileSize fs logName (writer.truncate st)
         \<and> map_of (files (saveFiles cfg l fs st)) f
           = map_of (files (FileWriter_saveFiles l fs (writer.truncate st))) f"
proof
  have sz: "currLogSize (writer.truncate st) = currLogSize st"
    by (simp add: writer.truncate_def)
  show "map_sum id writer.truncate (checkFileSize fs logName st)
           = FileWriter_checkFileSize fs logName (writer.truncate st)"
    using assms(1,2) truncate_rotate [of logName st]
    by (auto simp: checkFileSize_def FileWriter_checkFileSize_def sz)
  have tr: "logs (writer.truncate st) = logs st" "index (writer.truncate st) = index st"
      "currLogFile (writer.truncate st) = currLogFile st"
    by (simp_all add: writer.truncate_def)
  show "map_of (files (saveFiles cfg l fs st)) f
           = map_of (files (FileWriter_saveFiles l fs (writer.truncate st))) f"
    using assms(3,4)
    by (simp add: saveFiles_def FileWriter_saveFiles_def tr writeFileSync_def update_conv'
        split: option.splits)
qed

theorem C9_variants_agree_outside_gap_witness:
  "map_sum id writer.truncate
     (checkFileSize (dir_of [(''logs_0.json'', ''{}'')]) ''logs_0.json'' new_reader)
     = FileWriter_checkFileSize (dir_of [(''logs_0.json'', ''{}'')]) ''logs_0.json''
         (writer.truncate new_reader)
   \<and> map_of (files (saveFiles test_config test_lib (dir_of [(''logs_0.json'', ''{}'')]) new_reader))
       ''index.json''
     = map_of (files (FileWriter_saveFiles test_lib (dir_of [(''logs_0.json'', ''{}'')])
                        (writer.truncate new_reader))) ''index.json''"
proof -
  have a: "statSync_size (dir_of [(''logs_0.json'', ''{}'')]) ''logs_0.json'' = Some 2"
    by (simp add: statSync_size_def dir_of_def)
  have b: "2 + currLogSize new_reader \<le> 5000 \<or> 50000000000 < 2 + currLogSize new_reader"
    by (simp add: new_reader_def)
  have c: "cfg_disableProto test_config \<noteq> Some True"
    by (simp add: test_config_def)
  have d: "''index.json'' \<noteq> ''config.json''" by simp
  show ?thesis
    using C9_variants_agree_outside_gap [OF a b c d, of test_lib] .
qed

section \<open>Facts about objects, the file system and the steps of a capture\<close>

lemma save_steps:
  assumes "save cfg l uuid now req h fs st = Inr (h', fs', st')"
  obtains fs1 st5 st6 where
    "pre l fs st = Inr fs1"
    "prepareLog cfg l uuid now req h (loaded_binary l fs1 st) = Inr (h', st5)"
    "prepareConfig cfg st5 = Inr st6"
    "checkFileSize fs1 (currLogFile st6) st6 = Inr st'"
    "fs' = saveFiles cfg l fs1 st'"
  using assms unfolding save_def Let_def loaded_binary_def
  by (auto split: sum.splits prod.splits)

lemma saveJson_steps:
  assumes "saveJson cfg l uuid now req h fs st = Inr (h', fs', st')"
  obtains fs1 st5 st6 where
    "pre l fs st = Inr fs1"
    "prepareJsonLog cfg l uuid now req h (loaded_textual l fs1 st) = Inr (h', st5)"
    "prepareConfig cfg st5 = Inr st6"
    "checkFileSize fs1 (currLogFile st6) st6 = Inr st'"
    "fs' = saveFiles cfg l fs1 st'"
  using assms unfolding saveJson_def Let_def loaded_textual_def
  by (auto split: sum.splits prod.splits)

lemma map_of_insert_index:
  "array_index k = Some i \<Longrightarrow>
   map_of (insert_index i k v ps) k' = (if k' = k then Some v else map_of ps k')"
  by (induction ps) (auto split: option.splits)

lemma map_of_define_prop:
  "map_of (define_prop ps k v) k' = (if k' = k then Some v else map_of ps k')"
  by (auto simp: define_prop_def update_conv' map_of_insert_index map_add_def split: option.splits)

lemma map_of_define_prop_same: "map_of (define_prop ps k v) k = Some v"
  by (simp add: map_of_define_prop)

lemma get_prop_set_prop:
  assumes "set_prop c k v = Inr c'" and "k \<noteq> ''__proto__''" and "array_index k = None"
  shows "get_prop c' k = Inr v"
  using assms
  by (cases c) (auto simp: assign_member_def map_of_define_prop_same)

lemma validateFile_writable: "validateFile fs t b = Inr fs' \<Longrightarrow> writable fs' = writable fs"
  by (auto simp: validateFile_def writeFileSync_def split: if_splits option.splits)

lemma validateFile_dir_exists: "validateFile fs t b = Inr fs' \<Longrightarrow> dir_exists fs'"
  by (auto simp: validateFile_def writeFileSync_def existsSync_def split: if_splits option.splits)

lemma initDirectories_writable: "writable (initDirectories fs) = writable fs"
  by (simp add: initDirectories_def mkdirSync_def)

lemma pre_writable: "pre l fs st = Inr fs' \<Longrightarrow> writable fs' = writable fs"
  unfolding pre_def Let_def
  by (auto simp: initDirectories_writable split: sum.splits dest!: validateFile_writable)

lemma pre_dir_exists: "pre l fs st = Inr fs' \<Longrightarrow> dir_exists fs'"
  unfolding pre_def Let_def
  by (auto split: sum.splits dest: validateFile_dir_exists)

lemma fetchCurrentLogFile_listed:
  "dir_exists fs \<Longrightarrow> \<exists>st1. fetchCurrentLogFile fs fileName st = Inr st1"
  by (simp add: fetchCurrentLogFile_def readdirSync_def Let_def split: option.splits)

lemma fetchCurrentLogFile_after_pre:
  "pre l fs st = Inr fs1 \<Longrightarrow> \<exists>st1. fetchCurrentLogFile fs1 None st' = Inr st1"
  by (rule fetchCurrentLogFile_listed) (rule pre_dir_exists)

lemma incrementLogFile_reader_fields:
  "incrementLogFile n st = Inr st' \<Longrightarrow> config st' = config st \<and> logsJson st' = logsJson st"
  by (auto simp: incrementLogFile_def split: option.splits)

lemma cleanLogs_reader_fields:
  "cleanLogs st = Inr st' \<Longrightarrow> config st' = config st \<and> logsJson st' = logsJson st \<and> currLogFile st' = currLogFile st"
  by (auto simp: cleanLogs_def Let_def split: sum.splits)

lemma checkFileSize_reader_fields:
  "checkFileSize fs n st = Inr st' \<Longrightarrow> config st' = config st \<and> logsJson st' = logsJson st"
  unfolding checkFileSize_def
  by (auto split: option.splits if_splits sum.splits
      dest!: incrementLogFile_reader_fields cleanLogs_reader_fields)

lemma prepareConfig_flag:
  assumes "prepareConfig cfg st = Inr st'"
  shows "get_prop (config st') ''disableProto''
           = Inr (case cfg_disableProto cfg of None \<Rightarrow> JUndefined | Some b \<Rightarrow> JBool b)"
proof -
  have ai: "array_index ''disableProto'' = None"
    by (simp add: array_index_def is_digit_def)
  from assms obtain c where
    c: "set_prop (config st) ''disableProto''
          (case cfg_disableProto cfg of None \<Rightarrow> JUndefined | Some b \<Rightarrow> JBool b) = Inr c"
    and st': "st' = st\<lparr>config := c\<rparr>"
    by (auto simp: prepareConfig_def split: sum.splits)
  from get_prop_set_prop [OF c _ ai] st' show ?thesis by simp
qed

lemma saveFiles_written:
  assumes "writable fs (currLogFile st)" "writable fs ''index.json''" "writable fs ''config.json''"
    and "currLogFile st \<noteq> ''index.json''" "currLogFile st \<noteq> ''config.json''"
    and "dir_exists fs"
  shows "map_of (files (saveFiles cfg l fs st)) (currLogFile st)
           = Some (JSON_pretty l (if cfg_disableProto cfg = Some True then logsJson st else logs st))"
    and "map_of (files (saveFiles cfg l fs st)) ''config.json'' = Some (JSON_pretty l (config st))"
    and "map_of (files (saveFiles cfg l fs st)) ''index.json'' = Some (JSON_pretty l (index st))"
  using assms
  by (simp_all add: saveFiles_def writeFileSync_def update_conv')

lemma persisted_mode:
  assumes p: "pre l fs st = Inr fs1"
    and c: "prepareConfig cfg st5 = Inr st6"
    and k: "checkFileSize fs1 (currLogFile st6) st6 = Inr st'"
    and s: "fs' = saveFiles cfg l fs1 st'"
    and w: "writable fs (currLogFile st')" "writable fs ''index.json''" "writable fs ''config.json''"
    and d: "currLogFile st' \<noteq> ''index.json''" "currLogFile st' \<noteq> ''config.json''"
  shows "map_of (files fs') (currLogFile st')
           = Some (JSON_pretty l (if cfg_disableProto cfg = Some True then logsJson st' else logs st'))
         \<and> map_of (files fs') ''config.json'' = Some (JSON_pretty l (config st'))
         \<and> get_prop (config st') ''disableProto''
             = Inr (case cfg_disableProto cfg of None \<Rightarrow> JUndefined | Some b \<Rightarrow> JBool b)"
proof -
  have wr: "writable fs1 = writable fs" using p by (rule pre_writable)
  have de: "dir_exists fs1" using p by (rule pre_dir_exists)
  have cf: "config st' = config st6" using checkFileSize_reader_fields [OF k] by simp
  show ?thesis
    using saveFiles_written(1,2) [of fs1 st' cfg l] w d de prepareConfig_flag [OF c]
    by (simp add: wr s cf)
qed

section \<open>The encoding mode and the config snapshot\<close>

text \<open>
  Claim C6 says that the encoding mode used to persist a capture is the one recorded in the
  config snapshot read back from disk. The snapshot is read by \<^verbatim>\<open>prepareConfigFile\<close>, but
  \<^verbatim>\<open>prepareConfig\<close> then overwrites its flag with \<^verbatim>\<open>State.config.disableProto\<close>, and
  \<^verbatim>\<open>saveFiles\<close> chooses the map to write by \<^verbatim>\<open>State.config.disableProto\<close> as well. With a
  snapshot on disk recording \<^verbatim>\<open>disableProto: true\<close> and a caller configuration with
  \<^verbatim>\<open>disableProto: false\<close>, the capture writes the binary map to the segment and rewrites
  the snapshot to \<^verbatim>\<open>false\<close>.
\<close>

theorem C6_snapshot_not_consulted:
  "map_sum id (\<lambda>(h, fs, st). (map_of (files fs) ''logs_0.json'', map_of (files fs) ''config.json''))
     (save test_config test_lib test_uuid 0 test_request test_heap
        (dir_of [(''index.json'', render empty_index),
                 (''logs_0.json'', render empty_logs),
                 (''config.json'', render (JObj [(''disableProto'', JBool True)]))])
        new_reader)
   = Inr (Some (render (JObj [(''logs'', JObj [(test_uuid, JStr ''CgNHRVQ='')])])),
          Some (render (JObj [(''disableProto'', JBool False)])))
   \<and> JSON_parse test_lib (render (JObj [(''disableProto'', JBool True)])) = Some (JObj [(''disableProto'', JBool True)])
   \<and> cfg_disableProto test_config = Some False"
  by code_simp

text \<open>
  Claim C6, amended, for both capture methods \<^verbatim>\<open>save\<close> and \<^verbatim>\<open>saveJson\<close>: the map
  written to the segment file is chosen by the caller-supplied
  \<^verbatim>\<open>State.config.disableProto\<close> alone (the textual map exactly when it is \<^verbatim>\<open>true\<close>); the
  snapshot in memory carries that same flag when it is persisted; and every capture whose
  three writes succeed rewrites \<^verbatim>\<open>config.json\<close> with it.
\<close>

theorem C6_mode_from_caller_config:
  assumes "save cfg l uuid now req h fs st = Inr (h', fs', st')
           \<or> saveJson cfg l uuid now req h fs st = Inr (h', fs', st')"
    and "writable fs (currLogFile st')" and "writable fs ''index.json''" and "writable fs ''config.json''"
    and "currLogFile st' \<noteq> ''index.json''" and "currLogFile st' \<noteq> ''config.json''"
  shows "map_of (files fs') (currLogFile st')
           = Some (JSON_pretty l (if cfg_disableProto cfg = Some True then logsJson st' else logs st'))
         \<and> map_of (files fs') ''config.json'' = Some (JSON_pretty l (config st'))
         \<and> get_prop (config st') ''disableProto''
             = Inr (case cfg_disableProto cfg of None \<Rightarrow> JUndefined | Some b \<Rightarrow> JBool b)"
  using assms(1)
proof
  assume "save cfg l uuid now req h fs st = Inr (h', fs', st')"
  then obtain fs1 st5 st6 where
    "pre l fs st = Inr fs1" "prepareConfig cfg st5 = Inr st6"
    "checkFileSize fs1 (currLogFile st6) st6 = Inr st'" "fs' = saveFiles cfg l fs1 st'"
    by (rule save_steps)
  then show ?thesis using assms(2-6) by (rule persisted_mode)
next
  assume "saveJson cfg l uuid now req h fs st = Inr (h', fs', st')"
  then obtain fs1 st5 st6 where
    "pre l fs st = Inr fs1" "prepareConfig cfg st5 = Inr st6"
    "checkFileSize fs1 (currLogFile st6) st6 = Inr st'" "fs' = saveFiles cfg l fs1 st'"
    by (rule saveJson_steps)
  then show ?thesis using assms(2-6) by (rule persisted_mode)
qed

theorem C6_mode_from_caller_config_witness:
  "test_capture = Inr (projr test_capture)
   \<and> map_of (files (fst (snd (projr test_capture)))) ''logs_0.json''
       = Some (render (JObj [(''logs'', JObj [(test_uuid, JStr ''CgNHRVQ='')])]))
   \<and> map_of (files (fst (snd (projr test_capture)))) ''config.json''
       = Some (render (JObj [(''disableProto'', JBool False)]))
   \<and> get_prop (config (snd (snd (projr test_capture)))) ''disableProto'' = Inr (JBool False)"
proof -
  let ?h = "fst (projr test_capture)"
  let ?fs = "fst (snd (projr test_capture))"
  let ?st = "snd (snd (projr test_capture))"
  have "\<not> isl test_capture" by code_simp
  then have r: "test_capture = Inr (projr test_capture)" by simp
  then have run: "save test_config test_lib test_uuid 0 test_request test_heap (dir_of []) new_reader
      = Inr (?h, ?fs, ?st)"
    by (simp add: test_capture_def)
  have w: "writable (dir_of []) (currLogFile ?st)" "writable (dir_of []) ''index.json''"
      "writable (dir_of []) ''config.json''"
    by (simp_all add: dir_of_def)
  have n: "currLogFile ?st = ''logs_0.json''" by code_simp
  have d: "currLogFile ?st \<noteq> ''index.json''" "currLogFile ?st \<noteq> ''config.json''"
    by (simp_all add: n)
  have v: "logs ?st = JObj [(''logs'', JObj [(test_uuid, JStr ''CgNHRVQ='')])]"
      "config ?st = JObj [(''disableProto'', JBool False)]"
    by code_simp+
  show ?thesis
    using C6_mode_from_caller_config [OF disjI1 [OF run] w d] r
    by (simp add: n v test_config_def test_lib_def)
qed

section \<open>Bootstrap files\<close>

lemma validateFile_uncreatable:
  "uncreatable fs t \<Longrightarrow> validateFile fs t b = Inl (CannotCreateFile t)"
  by (auto simp: uncreatable_def validateFile_def writeFileSync_def)

lemma validateFile_exists: "existsSync fs t \<Longrightarrow> validateFile fs t b = Inr fs"
  by (simp add: validateFile_def)

lemma validateFile_creates:
  assumes "\<not> existsSync fs t" and "dir_exists fs" and "writable fs t"
  shows "validateFile fs t b = Inr (fs\<lparr>files := AList.update t b (files fs)\<rparr>)"
  using assms by (simp add: validateFile_def writeFileSync_def)

lemma validateFile_ok:
  assumes "\<not> uncreatable fs t"
  shows "\<exists>fs'. validateFile fs t b = Inr fs' \<and> existsSync fs' t
           \<and> (\<forall>u. uncreatable fs' u = uncreatable fs u)
           \<and> (\<forall>u. existsSync fs u \<longrightarrow> existsSync fs' u)"
proof (cases "existsSync fs t")
  case True
  then show ?thesis by (simp add: validateFile_exists)
next
  case False
  with assms have w: "dir_exists fs" "writable fs t" by (simp_all add: uncreatable_def)
  let ?fs = "fs\<lparr>files := AList.update t b (files fs)\<rparr>"
  have e: "\<And>u. existsSync ?fs u = (existsSync fs u \<or> u = t)"
    using w(1) by (auto simp: existsSync_def update_conv')
  have "validateFile fs t b = Inr ?fs" using False w by (rule validateFile_creates)
  moreover have "\<forall>u. uncreatable ?fs u = uncreatable fs u"
    using w by (auto simp: uncreatable_def e)
  ultimately show ?thesis by (simp add: e)
qed

lemma pre_fails:
  assumes "List.find (uncreatable (initDirectories fs)) (bootstrap_files st) = Some f"
  shows "pre l fs st = Inl (CannotCreateFile f)"
proof -
  let ?fs = "initDirectories fs"
  show ?thesis
  proof (cases "uncreatable ?fs ''index.json''")
    case True
    with assms have "f = ''index.json''" by (simp add: bootstrap_files_def)
    with True show ?thesis by (simp add: pre_def validateFile_uncreatable)
  next
    case a: False
    then obtain fs1 where 1: "validateFile ?fs ''index.json'' (JSON_stringify l empty_index) = Inr fs1"
      and u1: "\<And>u. uncreatable fs1 u = uncreatable ?fs u"
      using validateFile_ok [of ?fs "''index.json''" "JSON_stringify l empty_index"] by blast
    show ?thesis
    proof (cases "uncreatable ?fs (currLogFile st)")
      case True
      with a assms have "f = currLogFile st" by (simp add: bootstrap_files_def)
      with True show ?thesis by (simp add: pre_def 1 validateFile_uncreatable u1)
    next
      case b: False
      then have "\<not> uncreatable fs1 (currLogFile st)" by (simp add: u1)
      then obtain fs2 where
        2: "validateFile fs1 (currLogFile st) (JSON_stringify l empty_logs) = Inr fs2"
        and u2: "\<And>u. uncreatable fs2 u = uncreatable fs1 u"
        using validateFile_ok [of fs1 "currLogFile st" "JSON_stringify l empty_logs"] by blast
      from a b assms have "f = ''config.json'' \<and> uncreatable ?fs ''config.json''"
        by (auto simp: bootstrap_files_def split: if_splits)
      then show ?thesis by (simp add: pre_def 1 2 validateFile_uncreatable u1 u2)
    qed
  qed
qed

lemma pre_succeeds:
  assumes "List.find (uncreatable (initDirectories fs)) (bootstrap_files st) = None"
  obtains fs' where "pre l fs st = Inr fs'" "\<forall>t \<in> set (bootstrap_files st). existsSync fs' t"
proof -
  let ?fs = "initDirectories fs"
  from assms have a: "\<not> uncreatable ?fs ''index.json''" and b: "\<not> uncreatable ?fs (currLogFile st)"
    and c: "\<not> uncreatable ?fs ''config.json''"
    by (auto simp: bootstrap_files_def split: if_splits)
  from a obtain fs1 where 1: "validateFile ?fs ''index.json'' (JSON_stringify l empty_index) = Inr fs1"
    and e1: "existsSync fs1 ''index.json''" and u1: "\<And>u. uncreatable fs1 u = uncreatable ?fs u"
    using validateFile_ok [of ?fs "''index.json''" "JSON_stringify l empty_index"] by blast
  from b have "\<not> uncreatable fs1 (currLogFile st)" by (simp add: u1)
  then obtain fs2 where
    2: "validateFile fs1 (currLogFile st) (JSON_stringify l empty_logs) = Inr fs2"
    and e2: "existsSync fs2 (currLogFile st)" and u2: "\<And>u. uncreatable fs2 u = uncreatable fs1 u"
    and k2: "\<And>u. existsSync fs1 u \<Longrightarrow> existsSync fs2 u"
    using validateFile_ok [of fs1 "currLogFile st" "JSON_stringify l empty_logs"] by blast
  from c have "\<not> uncreatable fs2 ''config.json''" by (simp add: u1 u2)
  then obtain fs3 where
    3: "validateFile fs2 ''config.json'' (JSON_stringify l empty_config) = Inr fs3"
    and e3: "existsSync fs3 ''config.json''"
    and k3: "\<And>u. existsSync fs2 u \<Longrightarrow> existsSync fs3 u"
    using validateFile_ok [of fs2 "''config.json''" "JSON_stringify l empty_config"] by blast
  show ?thesis
  proof (rule that [of fs3])
    show "pre l fs st = Inr fs3" by (simp add: pre_def 1 2 3)
    show "\<forall>t \<in> set (bootstrap_files st). existsSync fs3 t"
      using e1 e2 e3 k2 k3 by (simp add: bootstrap_files_def)
  qed
qed

lemma read_after_pre:
  assumes "fetchCurrentLogFile fs fileName st = Inr st1"
    and "pre l fs st1 = Inr fs'" and "\<forall>t \<in> set (bootstrap_files st1). existsSync fs' t"
  shows "read l fs fileName st = Inr (fs', prepareLogfile l fs' st1, logs (prepareLogfile l fs' st1))"
  using assms
  by (simp add: read_def Let_def bootstrap_files_def validateFile_exists)

lemma fetchCurrentLogFile_missing:
  "\<not> dir_exists fs \<Longrightarrow> fetchCurrentLogFile fs None st = Inl ENOENT"
  by (simp add: fetchCurrentLogFile_def readdirSync_def)

text \<open>
  What the bootstrap does. \<^verbatim>\<open>validateFile\<close> (the same text in both classes) raises
  \<^verbatim>\<open>CannotCreateFile\<close> naming its target exactly when the target is absent and cannot be
  written; an existing target leaves the directory untouched, and an absent, writable one
  is created with the default body. \<^verbatim>\<open>pre\<close> creates the directory if it can and validates
  the index, the current segment and the config snapshot in this order, so the captures
  \<^verbatim>\<open>save\<close> and \<^verbatim>\<open>saveJson\<close> raise \<^verbatim>\<open>CannotCreateFile\<close> naming the first bootstrap file
  that is absent and cannot be created, and the bootstrap step raises nothing when there is
  none. \<^verbatim>\<open>read\<close> does the same once \<^verbatim>\<open>fetchCurrentLogFile\<close> has returned, for the segment
  it selected; without a file name on a missing directory it does not get that far.
\<close>

theorem bootstrap_fatality:
  "(uncreatable fs target \<longrightarrow> validateFile fs target body = Inl (CannotCreateFile target))
   \<and> (existsSync fs target \<longrightarrow> validateFile fs target body = Inr fs)
   \<and> (\<not> existsSync fs target \<and> dir_exists fs \<and> writable fs target \<longrightarrow>
        (\<exists>fs'. validateFile fs target body = Inr fs' \<and> readFileSync fs' target = Some body))
   \<and> (List.find (uncreatable (initDirectories fs)) (bootstrap_files st) = Some f \<longrightarrow>
        pre l fs st = Inl (CannotCreateFile f)
        \<and> save cfg l uuid now req h fs st = Inl (CannotCreateFile f)
        \<and> saveJson cfg l uuid now req h fs st = Inl (CannotCreateFile f))
   \<and> (fetchCurrentLogFile fs fileName st = Inr st1
        \<and> List.find (uncreatable (initDirectories fs)) (bootstrap_files st1) = Some f \<longrightarrow>
        read l fs fileName st = Inl (CannotCreateFile f))
   \<and> (List.find (uncreatable (initDirectories fs)) (bootstrap_files st) = None \<longrightarrow>
        (\<exists>fs'. pre l fs st = Inr fs' \<and> (\<forall>t \<in> set (bootstrap_files st). existsSync fs' t)))
   \<and> (fetchCurrentLogFile fs fileName st = Inr st1
        \<and> List.find (uncreatable (initDirectories fs)) (bootstrap_files st1) = None \<longrightarrow>
        (\<exists>r. read l fs fileName st = Inr r))
   \<and> (\<not> dir_exists fs \<longrightarrow> read l fs None st = Inl ENOENT)"
proof (intro conjI impI)
  assume "uncreatable fs target"
  then show "validateFile fs target body = Inl (CannotCreateFile target)"
    by (rule validateFile_uncreatable)
next
  assume "existsSync fs target"
  then show "validateFile fs target body = Inr fs" by (rule validateFile_exists)
next
  assume "\<not> existsSync fs target \<and> dir_exists fs \<and> writable fs target"
  then have "validateFile fs target body = Inr (fs\<lparr>files := AList.update target body (files fs)\<rparr>)"
    "dir_exists fs"
    by (simp_all add: validateFile_creates)
  then show "\<exists>fs'. validateFile fs target body = Inr fs' \<and> readFileSync fs' target = Some body"
    by (simp add: readFileSync_def update_conv')
next
  assume "List.find (uncreatable (initDirectories fs)) (bootstrap_files st) = Some f"
  then show "pre l fs st = Inl (CannotCreateFile f)" by (rule pre_fails)
next
  assume "List.find (uncreatable (initDirectories fs)) (bootstrap_files st) = Some f"
  then have "pre l fs st = Inl (CannotCreateFile f)" by (rule pre_fails)
  then show "save cfg l uuid now req h fs st = Inl (CannotCreateFile f)"
    by (simp add: save_def)
next
  assume "List.find (uncreatable (initDirectories fs)) (bootstrap_files st) = Some f"
  then have "pre l fs st = Inl (CannotCreateFile f)" by (rule pre_fails)
  then show "saveJson cfg l uuid now req h fs st = Inl (CannotCreateFile f)"
    by (simp add: saveJson_def)
next
  assume a: "fetchCurrentLogFile fs fileName st = Inr st1
     \<and> List.find (uncreatable (initDirectories fs)) (bootstrap_files st1) = Some f"
  then have "pre l fs st1 = Inl (CannotCreateFile f)"
    using pre_fails by blast
  with a show "read l fs fileName st = Inl (CannotCreateFile f)"
    by (simp add: read_def)
next
  assume "List.find (uncreatable (initDirectories fs)) (bootstrap_files st) = None"
  then show "\<exists>fs'. pre l fs st = Inr fs' \<and> (\<forall>t \<in> set (bootstrap_files st). existsSync fs' t)"
    by (rule pre_succeeds) blast
next
  assume a: "fetchCurrentLogFile fs fileName st = Inr st1
     \<and> List.find (uncreatable (initDirectories fs)) (bootstrap_files st1) = None"
  then have "List.find (uncreatable (initDirectories fs)) (bootstrap_files st1) = None" by simp
  then obtain fs' where "pre l fs st1 = Inr fs'"
    "\<forall>t \<in> set (bootstrap_files st1). existsSync fs' t"
    by (rule pre_succeeds)
  with a show "\<exists>r. read l fs fileName st = Inr r"
    using read_after_pre [of fs fileName st st1 l fs'] by simp
next
  assume "\<not> dir_exists fs"
  then show "read l fs None st = Inl ENOENT"
    by (simp add: read_def fetchCurrentLogFile_missing)
qed

theorem bootstrap_fatality_example:
  "validateFile locked_dir ''index.json'' ''{}'' = Inl (CannotCreateFile ''index.json'')
   \<and> pre test_lib locked_dir new_reader = Inl (CannotCreateFile ''index.json'')
   \<and> save test_config test_lib test_uuid 0 test_request test_heap locked_dir new_reader
       = Inl (CannotCreateFile ''index.json'')
   \<and> saveJson test_config test_lib test_uuid 0 test_request test_heap locked_dir new_reader
       = Inl (CannotCreateFile ''index.json'')
   \<and> read test_lib locked_dir None new_reader = Inl (CannotCreateFile ''index.json'')
   \<and> validateFile index_only_dir ''index.json'' ''{}'' = Inr index_only_dir
   \<and> (\<exists>fs'. validateFile index_only_dir ''config.json'' ''{}'' = Inr fs'
         \<and> readFileSync fs' ''config.json'' = Some ''{}'')
   \<and> (\<exists>fs'. pre test_lib index_only_dir new_reader = Inr fs'
         \<and> (\<forall>t \<in> set (bootstrap_files new_reader). existsSync fs' t))
   \<and> (\<exists>r. read test_lib index_only_dir None new_reader = Inr r)"
proof -
  note A = bootstrap_fatality [where fs = locked_dir and target = "''index.json''"
      and body = "''{}''" and st = new_reader and f = "''index.json''" and l = test_lib
      and cfg = test_config and uuid = test_uuid and now = 0 and req = test_request
      and h = test_heap and fileName = None and ?st1.0 = new_reader]
  note B = bootstrap_fatality [where fs = index_only_dir and target = "''index.json''"
      and body = "''{}''" and st = new_reader and l = test_lib and fileName = None
      and ?st1.0 = new_reader]
  note C = bootstrap_fatality [where fs = index_only_dir and target = "''config.json''"
      and body = "''{}''"]
  have i: "initDirectories locked_dir = locked_dir" "initDirectories index_only_dir = index_only_dir"
    by (simp_all add: initDirectories_def locked_dir_def index_only_dir_def dir_of_def)
  have a1: "uncreatable locked_dir ''index.json''" by code_simp
  have a2: "List.find (uncreatable locked_dir) (bootstrap_files new_reader) = Some ''index.json''"
    by code_simp
  have a3: "fetchCurrentLogFile locked_dir None new_reader = Inr new_reader"
    by (simp add: fetchCurrentLogFile_def readdirSync_def locked_dir_def List.map_filter_simps)
  have b1: "existsSync index_only_dir ''index.json''" by code_simp
  have b2: "List.find (uncreatable index_only_dir) (bootstrap_files new_reader) = None"
    by code_simp
  have n: "match_digits ''index.json'' = None" by code_simp
  have b3: "fetchCurrentLogFile index_only_dir None new_reader = Inr new_reader"
    by (simp add: fetchCurrentLogFile_def readdirSync_def index_only_dir_def dir_of_def
        List.map_filter_simps n)
  have c1: "\<not> existsSync index_only_dir ''config.json'' \<and> dir_exists index_only_dir
      \<and> writable index_only_dir ''config.json''"
    by code_simp
  have pa: "validateFile locked_dir ''index.json'' ''{}'' = Inl (CannotCreateFile ''index.json'')
      \<and> pre test_lib locked_dir new_reader = Inl (CannotCreateFile ''index.json'')
      \<and> save test_config test_lib test_uuid 0 test_request test_heap locked_dir new_reader
          = Inl (CannotCreateFile ''index.json'')
      \<and> saveJson test_config test_lib test_uuid 0 test_request test_heap locked_dir new_reader
          = Inl (CannotCreateFile ''index.json'')
      \<and> read test_lib locked_dir None new_reader = Inl (CannotCreateFile ''index.json'')"
    using A a1 a2 a3 by (simp add: i)
  have pb: "validateFile index_only_dir ''index.json'' ''{}'' = Inr index_only_dir
      \<and> (\<exists>fs'. pre test_lib index_only_dir new_reader = Inr fs'
            \<and> (\<forall>t \<in> set (bootstrap_files new_reader). existsSync fs' t))
      \<and> (\<exists>r. read test_lib index_only_dir None new_reader = Inr r)"
    using B b1 b2 b3 by (simp add: i)
  have pc: "\<exists>fs'. validateFile index_only_dir ''config.json'' ''{}'' = Inr fs'
         \<and> readFileSync fs' ''config.json'' = Some ''{}''"
    using C c1 by simp
  from pa pb pc show ?thesis by simp
qed

text \<open>
  Claim C7 says that for every required bootstrap file that is absent and cannot be created,
  capture and retrieve raise \<^verbatim>\<open>CannotCreateFile\<close> naming that file. \<^verbatim>\<open>save\<close> runs
  \<^verbatim>\<open>pre\<close> (with \<^verbatim>\<open>initDirectories\<close>) first and does so. \<^verbatim>\<open>read\<close> calls
  \<^verbatim>\<open>fetchCurrentLogFile\<close> before \<^verbatim>\<open>pre\<close>: without a file name it lists the storage
  directory, and on a missing directory the unguarded \<^verbatim>\<open>readdirSync\<close> throws its own error
  (\<^verbatim>\<open>ENOENT\<close>) before any bootstrap file is looked at. That happens when the directory
  cannot be created, where the claim promises \<^verbatim>\<open>CannotCreateFile\<close> for \<^verbatim>\<open>index.json\<close>, and
  also on a first use, where the bootstrap would have created the directory and its files.
  The capture on the same directory, and the retrieval with an explicit file name, raise
  \<^verbatim>\<open>CannotCreateFile\<close> naming \<^verbatim>\<open>index.json\<close>.
\<close>

theorem C7_read_scans_before_bootstrap:
  "read test_lib missing_dir None new_reader = Inl ENOENT
   \<and> read test_lib fresh_dir None new_reader = Inl ENOENT
   \<and> List.find (uncreatable (initDirectories missing_dir)) (bootstrap_files new_reader)
       = Some ''index.json''
   \<and> save test_config test_lib test_uuid 0 test_request test_heap missing_dir new_reader
       = Inl (CannotCreateFile ''index.json'')
   \<and> read test_lib missing_dir (Some ''logs_0.json'') new_reader
       = Inl (CannotCreateFile ''index.json'')"
proof -
  have m: "\<not> dir_exists missing_dir" "\<not> dir_exists fresh_dir"
    by (simp_all add: missing_dir_def fresh_dir_def)
  have i: "initDirectories missing_dir = missing_dir"
    by (simp add: initDirectories_def mkdirSync_def missing_dir_def)
  have u: "uncreatable missing_dir ''index.json''"
    by (simp add: uncreatable_def existsSync_def missing_dir_def)
  then have f: "List.find (uncreatable (initDirectories missing_dir)) (bootstrap_files new_reader)
      = Some ''index.json''"
    by (simp add: i bootstrap_files_def)
  then have p: "pre test_lib missing_dir new_reader = Inl (CannotCreateFile ''index.json'')"
    by (rule pre_fails)
  have n: "fetchCurrentLogFile missing_dir (Some ''logs_0.json'') new_reader = Inr new_reader"
    by (simp add: fetchCurrentLogFile_def new_reader_def)
  show ?thesis
    using m f p n
    by (simp add: read_def save_def fetchCurrentLogFile_missing)
qed

section \<open>Selecting the current segment\<close>

lemma str_includes_segment_name: "str_includes ''logs'' (segment_name n)"
  by (simp add: segment_name_def)

lemma parseInt_segment_name:
  "map_option parseInt (match_digits (segment_name n)) = Some n"
  by (simp add: match_digits_segment_name parseInt_toString)

lemma set_map_filter_eq:
  "set (List.map_filter g xs) = {y. \<exists>x \<in> set xs. g x = Some y}"
  by (induction xs) (auto simp: map_filter_simps split: option.splits)

lemma logNumbers_set:
  assumes "\<forall>f \<in> set fl. str_includes ''logs'' f \<and> match_digits f \<noteq> None
             \<longrightarrow> (\<exists>n \<le> MAX_SAFE_INTEGER. f = segment_name n)"
  shows "set (List.map_filter (\<lambda>file. map_option parseInt (match_digits file))
                (filter (str_includes ''logs'') fl))
         = {n. segment_name n \<in> set fl}"
proof (intro set_eqI iffI)
  fix n
  assume "n \<in> set (List.map_filter (\<lambda>file. map_option parseInt (match_digits file))
                      (filter (str_includes ''logs'') fl))"
  then obtain f where f: "f \<in> set fl" "str_includes ''logs'' f"
    and m: "map_option parseInt (match_digits f) = Some n"
    by (auto simp: set_map_filter_eq)
  from m have "match_digits f \<noteq> None" by auto
  with assms f obtain k where k: "f = segment_name k" by blast
  with m have "k = n" by (simp add: parseInt_segment_name)
  with k f show "n \<in> {n. segment_name n \<in> set fl}" by simp
next
  fix n
  assume "n \<in> {n. segment_name n \<in> set fl}"
  then have "segment_name n \<in> set (filter (str_includes ''logs'') fl)"
    by (simp add: str_includes_segment_name)
  then show "n \<in> set (List.map_filter (\<lambda>file. map_option parseInt (match_digits file))
                      (filter (str_includes ''logs'') fl))"
    using parseInt_segment_name [of n] unfolding set_map_filter_eq by blast
qed

text \<open>
  Claim C5: without an explicit file name, \<^verbatim>\<open>fetchCurrentLogFile\<close> lists the storage
  directory, looks at the files whose name contains \<^verbatim>\<open>logs\<close>, takes the first run of
  digits of each and makes \<^verbatim>\<open>logs_<max>.json\<close> current. In an existing storage directory
  (its listing is \<open>names\<close>) where every such file that has digits is a segment
  \<^verbatim>\<open>logs_<n>.json\<close> (with \<open>n\<close> in the range where numbers are exact), the selected name
  is the segment file with the greatest number, and it is one of the files; with no segment
  file the current name is kept, which for a fresh reader is \<^verbatim>\<open>logs_0.json\<close>. The witness
  evaluates the example \<^verbatim>\<open>logs_0.json, logs_3.json, logs_7.json\<close>.
\<close>

theorem C5_segment_selection:
  assumes "readdirSync fs = Some names"
    and "\<forall>f \<in> set names. str_includes ''logs'' f \<and> match_digits f \<noteq> None
             \<longrightarrow> (\<exists>n \<le> MAX_SAFE_INTEGER. f = segment_name n)"
  shows "((\<exists>n. segment_name n \<in> set names) \<longrightarrow>
            fetchCurrentLogFile fs None st
              = Inr (st\<lparr>currLogFile := segment_name (Max {n. segment_name n \<in> set names})\<rparr>)
            \<and> segment_name (Max {n. segment_name n \<in> set names}) \<in> set names)
         \<and> ((\<forall>n. segment_name n \<notin> set names) \<longrightarrow> fetchCurrentLogFile fs None st = Inr st)
         \<and> currLogFile new_reader = segment_name 0"
proof (intro conjI impI)
  let ?N = "{n. segment_name n \<in> set names}"
  let ?ns = "List.map_filter (\<lambda>file. map_option parseInt (match_digits file))
               (filter (str_includes ''logs'') names)"
  have ns: "set ?ns = ?N" using assms(2) by (rule logNumbers_set)
  {
    assume "\<exists>n. segment_name n \<in> set names"
    then have ne: "?N \<noteq> {}" by blast
    with ns have "?ns \<noteq> []" by auto
    then show "fetchCurrentLogFile fs None st = Inr (st\<lparr>currLogFile := segment_name (Max ?N)\<rparr>)"
      by (simp add: fetchCurrentLogFile_def assms(1) Let_def ns)
    have "finite ?N" using ns [symmetric] by simp
    then have "Max ?N \<in> ?N" using ne by (rule Max_in)
    then show "segment_name (Max ?N) \<in> set names" by simp
  }
  {
    assume "\<forall>n. segment_name n \<notin> set names"
    then have "?N = {}" by simp
    with ns have "?ns = []" by simp
    then show "fetchCurrentLogFile fs None st = Inr st"
      by (simp add: fetchCurrentLogFile_def assms(1) Let_def)
  }
  show "currLogFile new_reader = segment_name 0" by code_simp
qed

theorem C5_segment_selection_witness:
  "map_sum id currLogFile (fetchCurrentLogFile segments_dir None new_reader)
     = Inr (segment_name (Max {n. segment_name n \<in> set (map fst (files segments_dir))}))
   \<and> segment_name (Max {n. segment_name n \<in> set (map fst (files segments_dir))})
       \<in> set (map fst (files segments_dir))
   \<and> map_sum id currLogFile (fetchCurrentLogFile segments_dir None new_reader) = Inr ''logs_7.json''
   \<and> fetchCurrentLogFile index_only_dir None new_reader = Inr new_reader
   \<and> currLogFile new_reader = ''logs_0.json''"
proof -
  have n: "segment_name 0 = ''logs_0.json''" "segment_name 3 = ''logs_3.json''"
      "segment_name 7 = ''logs_7.json''"
    by code_simp+
  have b: "(0::nat) \<le> MAX_SAFE_INTEGER" "(3::nat) \<le> MAX_SAFE_INTEGER" "(7::nat) \<le> MAX_SAFE_INTEGER"
    by (simp_all add: MAX_SAFE_INTEGER_def)
  have d: "map fst (files segments_dir)
             = [''logs_0.json'', ''index.json'', ''logs_7.json'', ''config.json'', ''logs_3.json'']"
    by code_simp
  have r1: "readdirSync segments_dir = Some (map fst (files segments_dir))"
    by (simp add: readdirSync_def segments_dir_def dir_of_def)
  have i: "match_digits ''index.json'' = None" "match_digits ''config.json'' = None"
    by code_simp+
  have a1: "\<forall>f \<in> set (map fst (files segments_dir)). str_includes ''logs'' f \<and> match_digits f \<noteq> None
             \<longrightarrow> (\<exists>n \<le> MAX_SAFE_INTEGER. f = segment_name n)"
  proof -
    have "\<exists>n \<le> MAX_SAFE_INTEGER. ''logs_0.json'' = segment_name n" using n(1) b(1) by metis
    moreover have "\<exists>n \<le> MAX_SAFE_INTEGER. ''logs_3.json'' = segment_name n" using n(2) b(2) by metis
    moreover have "\<exists>n \<le> MAX_SAFE_INTEGER. ''logs_7.json'' = segment_name n" using n(3) b(3) by metis
    ultimately show ?thesis unfolding d using i by simp
  qed
  have e1: "\<exists>n. segment_name n \<in> set (map fst (files segments_dir))"
    unfolding d using n(3) by auto
  have d2: "map fst (files index_only_dir) = [''index.json'']" by code_simp
  have r2: "readdirSync index_only_dir = Some (map fst (files index_only_dir))"
    by (simp add: readdirSync_def index_only_dir_def dir_of_def)
  have a2: "\<forall>f \<in> set (map fst (files index_only_dir)). str_includes ''logs'' f \<and> match_digits f \<noteq> None
             \<longrightarrow> (\<exists>n \<le> MAX_SAFE_INTEGER. f = segment_name n)"
    unfolding d2 using i by simp
  have e2: "\<forall>n. segment_name n \<notin> set (map fst (files index_only_dir))"
  proof
    fix n
    have "match_digits (segment_name n) \<noteq> None" by (simp add: match_digits_segment_name)
    with i(1) have "segment_name n \<noteq> ''index.json''" by metis
    then show "segment_name n \<notin> set (map fst (files index_only_dir))" unfolding d2 by simp
  qed
  have v: "map_sum id currLogFile (fetchCurrentLogFile segments_dir None new_reader) = Inr ''logs_7.json''"
    by code_simp
  have w: "currLogFile new_reader = ''logs_0.json''" by code_simp
  from C5_segment_selection [OF r1 a1, of new_reader] e1
  have A: "fetchCurrentLogFile segments_dir None new_reader
             = Inr (new_reader\<lparr>currLogFile :=
                 segment_name (Max {n. segment_name n \<in> set (map fst (files segments_dir))})\<rparr>)
           \<and> segment_name (Max {n. segment_name n \<in> set (map fst (files segments_dir))})
               \<in> set (map fst (files segments_dir))"
    by blast
  then have A': "map_sum id currLogFile (fetchCurrentLogFile segments_dir None new_reader)
     = Inr (segment_name (Max {n. segment_name n \<in> set (map fst (files segments_dir))}))"
    by simp
  from C5_segment_selection [OF r2 a2, of new_reader] e2
  have B: "fetchCurrentLogFile index_only_dir None new_reader = Inr new_reader"
    by blast
  from A A' B v w show ?thesis by blast
qed

section \<open>Redaction\<close>

lemma map_of_assign_member:
  "map_of (assign_member ps k v) k'
     = (if k' = k \<and> \<not> (map_of ps k = None \<and> k = ''__proto__'') then Some v else map_of ps k')"
  by (auto simp: assign_member_def map_of_define_prop)

lemma map_of_redact_one_other: "k \<noteq> e \<Longrightarrow> map_of (redact_one b e) k = map_of b k"
  by (simp add: redact_one_def map_of_assign_member)

lemma member_truthy_cong: "map_of b' e = map_of b e \<Longrightarrow> member_truthy b' e = member_truthy b e"
  by (simp add: member_truthy_def)

lemma redact_one_settled: "settled b e \<Longrightarrow> redact_one b e = b"
  unfolding settled_def
proof (elim disjE)
  assume m: "map_of b e = Some (JStr ''***'')"
  then have "assign_member b e (JStr ''***'') = b"
    by (simp add: assign_member_def define_prop_def update_triv)
  then show ?thesis by (simp add: redact_one_def)
next
  assume "\<not> member_truthy b e"
  then show ?thesis by (simp add: redact_one_def)
next
  assume "map_of b e = None \<and> e = ''__proto__''"
  then show ?thesis by (auto simp: redact_one_def assign_member_def)
qed

lemma settled_redact_one_same: "settled (redact_one b e) e"
proof (cases "member_truthy b e \<and> \<not> (map_of b e = None \<and> e = ''__proto__'')")
  case True
  then have "map_of (redact_one b e) e = Some (JStr ''***'')"
    by (simp add: redact_one_def map_of_assign_member)
  then show ?thesis by (simp add: settled_def)
next
  case False
  then have "settled b e" by (auto simp: settled_def)
  then show ?thesis by (simp add: redact_one_settled)
qed

lemma settled_redact_one: "settled b e \<Longrightarrow> settled (redact_one b e') e"
proof (cases "e' = e")
  case True
  assume "settled b e"
  with True show ?thesis by (simp add: redact_one_settled)
next
  case False
  assume s: "settled b e"
  from False have m: "map_of (redact_one b e') e = map_of b e"
    by (simp add: map_of_redact_one_other)
  then have "member_truthy (redact_one b e') e = member_truthy b e"
    by (rule member_truthy_cong)
  with m s show ?thesis by (simp add: settled_def)
qed

lemma settled_foldl: "\<forall>e \<in> set es. settled (foldl redact_one b es) e"
proof (induction es rule: rev_induct)
  case Nil
  show ?case by simp
next
  case (snoc x xs)
  then show ?case
    by (auto simp: settled_redact_one_same settled_redact_one)
qed

lemma foldl_settled: "\<forall>e \<in> set es. settled b e \<Longrightarrow> foldl redact_one b es = b"
  by (induction es) (simp_all add: redact_one_settled)

lemma obfuscate_fields_idem:
  "obfuscate_fields names (obfuscate_fields names body) = obfuscate_fields names body"
  unfolding obfuscate_fields_def by (rule foldl_settled) (rule settled_foldl)

lemma foldl_redact_one_other:
  "k \<notin> set es \<Longrightarrow> map_of (foldl redact_one b es) k = map_of b k"
  by (induction es arbitrary: b) (auto simp: map_of_redact_one_other)

lemma obfuscate_fields_occured:
  "map_of (obfuscate_fields names body) ''occured'' = map_of body ''occured''"
  unfolding obfuscate_fields_def by (rule foldl_redact_one_other) simp

text \<open>
  Claim C4: redacting twice with the same list of names gives the same body as redacting
  once, on the object and on the store. The timestamp is never altered, whatever the list
  contains: \<^verbatim>\<open>obfuscate\<close> writes to \<^verbatim>\<open>log.body\<close> only, it skips the name \<^verbatim>\<open>occured\<close>, so
  even a body field of that name keeps its value, and the \<^verbatim>\<open>occured\<close> field of the
  formatted entry is the capture time for every configuration.
\<close>

theorem C4_redaction_idempotent:
  "obfuscate_fields names (obfuscate_fields names body) = obfuscate_fields names body
   \<and> obfuscate cfg a (obfuscate cfg a h) = obfuscate cfg a h
   \<and> map_of (obfuscate_fields names body) ''occured'' = map_of body ''occured''
   \<and> get_prop (snd (formatLogBody cfg l now req h)) ''occured'' = Inr (JStr (toISOString l now))"
proof (intro conjI)
  show "obfuscate_fields names (obfuscate_fields names body) = obfuscate_fields names body"
    by (rule obfuscate_fields_idem)
  show "obfuscate cfg a (obfuscate cfg a h) = obfuscate cfg a h"
    by (simp add: obfuscate_def store_def obfuscate_fields_idem)
  show "map_of (obfuscate_fields names body) ''occured'' = map_of body ''occured''"
    by (rule obfuscate_fields_occured)
  show "get_prop (snd (formatLogBody cfg l now req h)) ''occured'' = Inr (JStr (toISOString l now))"
    by (simp add: formatLogBody_def Let_def split: prod.splits)
qed

theorem C4_redaction_idempotent_witness:
  "obfuscate_fields [''password'', ''occured'', ''q'']
     (obfuscate_fields [''password'', ''occured'', ''q'']
        [(''password'', JStr ''x''), (''occured'', JNum 5), (''q'', JStr '''')])
   = [(''password'', JStr ''***''), (''occured'', JNum 5), (''q'', JStr '''')]
   \<and> obfuscate_fields [''password'', ''occured'', ''q'']
        [(''password'', JStr ''x''), (''occured'', JNum 5), (''q'', JStr '''')]
   = [(''password'', JStr ''***''), (''occured'', JNum 5), (''q'', JStr '''')]
   \<and> get_prop (snd (formatLogBody (test_config\<lparr>cfg_obfuscate := [''occured'']\<rparr>) test_lib 0
                      test_request test_heap)) ''occured''
     = Inr (JStr ''2024-01-01T00:00:00.000Z'')"
proof -
  have e: "obfuscate_fields [''password'', ''occured'', ''q'']
        [(''password'', JStr ''x''), (''occured'', JNum 5), (''q'', JStr '''')]
   = [(''password'', JStr ''***''), (''occured'', JNum 5), (''q'', JStr '''')]"
    by code_simp
  show ?thesis
    using C4_redaction_idempotent [of "[''password'', ''occured'', ''q'']"
        "[(''password'', JStr ''x''), (''occured'', JNum 5), (''q'', JStr '''')]"
        "test_config\<lparr>cfg_obfuscate := [''occured'']\<rparr>" 0 test_heap test_lib 0 test_request]
    by (simp add: e test_lib_def)
qed

section \<open>What a capture does to the caller's request\<close>

lemma formatLogBody_heap:
  assumes "req_headers req < next_addr h" and "req_body req = Some b" and "b < next_addr h"
    and "b \<noteq> req_headers req"
  shows "cells (fst (formatLogBody cfg l now req h)) (req_headers req) = cells h (req_headers req)"
    and "cfg_body cfg \<Longrightarrow>
           cells (fst (formatLogBody cfg l now req h)) b = obfuscate_fields (cfg_obfuscate cfg) (cells h b)"
    and "\<not> cfg_body cfg \<Longrightarrow> cells (fst (formatLogBody cfg l now req h)) b = cells h b"
    and "cells (fst (formatLogBody cfg l now req h)) (next_addr h)
           = delete_prop (spread [] (JObj (cells h (req_headers req)))) ''content-length''"
  using assms
  by (auto simp: formatLogBody_def alloc_def store_def obfuscate_def Let_def split: prod.splits)

lemma prepareLog_heap:
  "prepareLog cfg l uuid now req h st = Inr (h', st') \<Longrightarrow> h' = fst (formatLogBody cfg l now req h)"
  by (auto simp: prepareLog_def Let_def split: prod.splits option.splits sum.splits)

lemma prepareJsonLog_heap:
  "prepareJsonLog cfg l uuid now req h st = Inr (h', st') \<Longrightarrow> h' = fst (formatLogBody cfg l now req h)"
  by (auto simp: prepareJsonLog_def Let_def split: prod.splits sum.splits)

lemma truthy_own_redact_one:
  assumes "\<exists>v. map_of b e = Some v \<and> truthy v"
  shows "\<exists>v. map_of (redact_one b e') e = Some v \<and> truthy v"
proof (cases "e' = e")
  case True
  with assms show ?thesis
    by (auto simp: redact_one_def map_of_assign_member member_truthy_def)
next
  case False
  with assms show ?thesis by (simp add: map_of_redact_one_other)
qed

lemma truthy_own_foldl:
  "\<exists>v. map_of b e = Some v \<and> truthy v \<Longrightarrow> \<exists>v. map_of (foldl redact_one b es) e = Some v \<and> truthy v"
  by (induction es arbitrary: b) (simp_all add: truthy_own_redact_one)

lemma obfuscate_fields_marks:
  assumes "e \<in> set names" and "e \<noteq> ''occured''" and "map_of body e = Some v" and "truthy v"
  shows "map_of (obfuscate_fields names body) e = Some (JStr ''***'')"
proof -
  let ?es = "filter (\<lambda>field. field \<noteq> ''occured'') names"
  from assms(1,2) have "e \<in> set ?es" by simp
  with settled_foldl have s: "settled (foldl redact_one body ?es) e" by blast
  from assms(3,4) have "\<exists>v. map_of (foldl redact_one body ?es) e = Some v \<and> truthy v"
    by (intro truthy_own_foldl) blast
  with s show ?thesis
    by (auto simp: settled_def member_truthy_def obfuscate_fields_def)
qed

text \<open>
  Claim C10: \<^verbatim>\<open>prepareLog\<close> (the same text in both classes) and \<^verbatim>\<open>prepareJsonLog\<close>
  copy the request's headers
  into a new object and deletes \<^verbatim>\<open>content-length\<close> from the copy, so the request's own
  headers object is unchanged. With body capture enabled the entry's body is the request's
  body object itself, and \<^verbatim>\<open>obfuscate\<close> writes the marker into it: afterwards the
  request's body is its redacted form, every configured name other than \<^verbatim>\<open>occured\<close>
  with a truthy own value holding \<^verbatim>\<open>'***'\<close>. With body capture disabled the request's
  body is unchanged. The request is well formed: its objects were allocated before the
  call and its body is not its headers object.
\<close>

theorem C10_request_partially_mutated:
  assumes "prepareLog cfg l uuid now req h st = Inr (h', st')
           \<or> prepareJsonLog cfg l uuid now req h stj = Inr (h', stj')"
    and "req_headers req < next_addr h" and "req_body req = Some b" and "b < next_addr h"
    and "b \<noteq> req_headers req"
  shows "cells h' (req_headers req) = cells h (req_headers req)
         \<and> (cfg_body cfg \<longrightarrow> cells h' b = obfuscate_fields (cfg_obfuscate cfg) (cells h b))
         \<and> (cfg_body cfg \<and> e \<in> set (cfg_obfuscate cfg) \<and> e \<noteq> ''occured''
              \<and> map_of (cells h b) e = Some v \<and> truthy v
            \<longrightarrow> map_of (cells h' b) e = Some (JStr ''***''))
         \<and> (\<not> cfg_body cfg \<longrightarrow> cells h' b = cells h b)
         \<and> cells h' (next_addr h)
             = delete_prop (spread [] (JObj (cells h (req_headers req)))) ''content-length''"
proof -
  from assms(1) have h': "h' = fst (formatLogBody cfg l now req h)"
    using prepareLog_heap prepareJsonLog_heap by blast
  note f = formatLogBody_heap [OF assms(2-5), of cfg l now, folded h']
  show ?thesis
    using f by (auto simp: obfuscate_fields_marks)
qed

theorem C10_request_partially_mutated_witness:
  "cells (fst (projr test_prepared)) 1 = [(''host'', JStr ''h''), (''content-length'', JStr ''21'')]
   \<and> cells (fst (projr test_prepared)) 2 = [(''host'', JStr ''h'')]
   \<and> cells (fst (projr test_prepared)) 0 = [(''password'', JStr ''***''), (''q'', JStr ''y'')]
   \<and> map_of (cells (fst (projr test_prepared)) 0) ''password'' = Some (JStr ''***'')
   \<and> cells (fst (projr test_prepared_nobody)) 0 = [(''password'', JStr ''x''), (''q'', JStr ''y'')]"
proof -
  have "\<not> isl test_prepared" by code_simp
  then have "test_prepared = Inr (fst (projr test_prepared), snd (projr test_prepared))" by simp
  then have r1: "prepareLog test_config test_lib test_uuid 0 test_request test_heap new_reader
      = Inr (fst (projr test_prepared), snd (projr test_prepared))"
    by (simp add: test_prepared_def)
  have "\<not> isl test_prepared_nobody" by code_simp
  then have "test_prepared_nobody
      = Inr (fst (projr test_prepared_nobody), snd (projr test_prepared_nobody))" by simp
  then have r2: "prepareLog (test_config\<lparr>cfg_body := False\<rparr>) test_lib test_uuid 0 test_request
      test_heap new_reader = Inr (fst (projr test_prepared_nobody), snd (projr test_prepared_nobody))"
    by (simp add: test_prepared_nobody_def)
  have w: "req_headers test_request < next_addr test_heap" "req_body test_request = Some 0"
      "0 < next_addr test_heap" "0 \<noteq> req_headers test_request"
    by (simp_all add: test_request_def test_heap_def)
  have c: "cells test_heap 0 = [(''password'', JStr ''x''), (''q'', JStr ''y'')]"
      "cells test_heap (Suc 0) = [(''host'', JStr ''h''), (''content-length'', JStr ''21'')]"
      "req_headers test_request = 1" "next_addr test_heap = 2"
      "cfg_body test_config" "cfg_obfuscate test_config = [''password'']"
    by (simp_all add: test_request_def test_heap_def test_config_def)
  have o: "obfuscate_fields [''password''] [(''password'', JStr ''x''), (''q'', JStr ''y'')]
      = [(''password'', JStr ''***''), (''q'', JStr ''y'')]"
    "delete_prop (spread [] (JObj [(''host'', JStr ''h''), (''content-length'', JStr ''21'')]))
       ''content-length'' = [(''host'', JStr ''h'')]"
    by code_simp+
  note A = C10_request_partially_mutated [OF disjI1 [OF r1] w, of "''password''" "JStr ''x''"]
  note B = C10_request_partially_mutated [OF disjI1 [OF r2] w, of "''password''" "JStr ''x''"]
  from A have a: "cells (fst (projr test_prepared)) 1 = [(''host'', JStr ''h''), (''content-length'', JStr ''21'')]
      \<and> cells (fst (projr test_prepared)) 2 = [(''host'', JStr ''h'')]
      \<and> cells (fst (projr test_prepared)) 0 = [(''password'', JStr ''***''), (''q'', JStr ''y'')]
      \<and> map_of (cells (fst (projr test_prepared)) 0) ''password'' = Some (JStr ''***'')"
    by (simp add: c o)
  from B have b: "cells (fst (projr test_prepared_nobody)) 0 = [(''password'', JStr ''x''), (''q'', JStr ''y'')]"
    by (simp add: c)
  from a b show ?thesis by simp
qed

section \<open>Appending an entry and rotating\<close>

lemma is_uuid_hyphen: "is_uuid u \<Longrightarrow> length u = 36 \<and> u ! 8 = CHR ''-''"
proof -
  assume u: "is_uuid u"
  then have l: "length u = 36"
    unfolding is_uuid_def by (rule conjunct1)
  from u have "\<forall>i \<in> set [0..<36].
      if i \<in> {8, 13, 18, 23} then u ! i = CHR ''-'' else u ! i \<in> set ''0123456789abcdef''"
    unfolding is_uuid_def list_all_iff by (rule conjunct2)
  moreover have "(8::nat) \<in> set [0..<36]" by (simp del: upt_rec_numeral)
  ultimately have "if (8::nat) \<in> {8, 13, 18, 23} then u ! 8 = CHR ''-''
      else u ! 8 \<in> set ''0123456789abcdef''"
    by (rule bspec)
  then have "u ! 8 = CHR ''-''" by simp
  with l show ?thesis by simp
qed

lemma is_uuid_not_index: "is_uuid u \<Longrightarrow> array_index u = None"
proof -
  assume u: "is_uuid u"
  then have l: "length u = 36" and h: "u ! 8 = CHR ''-''"
    using is_uuid_hyphen by blast+
  from l have "u ! 8 \<in> set u" by simp
  with h have "CHR ''-'' \<in> set u" by simp
  moreover have "\<not> is_digit CHR ''-''" by (simp add: is_digit_def)
  ultimately have "\<not> list_all is_digit u"
    unfolding list_all_iff by blast
  then show ?thesis by (simp add: array_index_def)
qed


lemma set_insert_index: "set (insert_index i k v ps) = insert (k, v) (set ps)"
  by (induction ps) (auto split: option.splits if_splits)

lemma keys_define_prop: "fst ` set (define_prop ps k v) = insert k (fst ` set ps)"
  by (auto simp: define_prop_def dom_update set_insert_index split: option.splits)

lemma keys_foldl_define:
  "fst ` set (foldl (\<lambda>ps (k, v). define_prop ps k v) t es) = fst ` set t \<union> fst ` set es"
  by (induction es arbitrary: t) (simp_all add: keys_define_prop case_prod_beta)

lemma keys_spread: "fst ` set (spread t x) = fst ` set t \<union> fst ` set (own_entries x)"
  by (simp add: spread_def keys_foldl_define)

lemma define_prop_fresh:
  "k \<notin> fst ` set ps \<Longrightarrow> array_index k = None \<Longrightarrow> define_prop ps k v = ps @ [(k, v)]"
  by (simp add: define_prop_def map_of_eq_None_iff)

lemma spread_single_fresh:
  "k \<notin> fst ` set t \<Longrightarrow> array_index k = None \<Longrightarrow> spread t (JObj [(k, v)]) = t @ [(k, v)]"
  by (simp add: spread_def define_prop_fresh)

lemma array_index_logs: "array_index ''logs'' = None" "array_index ''indexes'' = None"
  by (simp_all add: array_index_def is_digit_def)


lemma prepareLog_effect:
  assumes "prepareLog cfg l uuid now req h st = Inr (h', st')"
  obtains enc old ix ix' where
    "encodeLog l (snd (formatLogBody cfg l now req h)) = Some enc"
    "get_prop (logs st) ''logs'' = Inr old"
    "set_prop (logs st) ''logs'' (JObj (spread (spread [] old) (JObj [(uuid, JStr enc)]))) = Inr (logs st')"
    "get_prop (index st) ''indexes'' = Inr ix"
    "set_prop ix uuid (JStr (path_resolve l (cfg_path cfg) ''index.json'')) = Inr ix'"
    "index st' = mutated_at (index st) ''indexes'' ix'"
    "currLogSize st' = length (JSON_stringify l (JObj [(uuid, JStr enc)]))"
    "currLogFile st' = currLogFile st"
proof -
  obtain h0 logBody where f: "formatLogBody cfg l now req h = (h0, logBody)"
    by (cases "formatLogBody cfg l now req h")
  from assms f obtain enc where enc: "encodeLog l logBody = Some enc"
    by (cases "encodeLog l logBody") (simp_all add: prepareLog_def)
  from assms f enc obtain old where old: "get_prop (logs st) ''logs'' = Inr old"
    by (cases "get_prop (logs st) ''logs''") (simp_all add: prepareLog_def Let_def)
  let ?v = "JObj (spread (spread [] old) (JObj [(uuid, JStr enc)]))"
  from assms f enc old obtain lg where lg: "set_prop (logs st) ''logs'' ?v = Inr lg"
    by (cases "set_prop (logs st) ''logs'' ?v") (simp_all add: prepareLog_def Let_def)
  from assms f enc old lg obtain ix where ix: "get_prop (index st) ''indexes'' = Inr ix"
    by (cases "get_prop (index st) ''indexes''") (simp_all add: prepareLog_def Let_def)
  let ?p = "JStr (path_resolve l (cfg_path cfg) ''index.json'')"
  from assms f enc old lg ix obtain ix' where ix': "set_prop ix uuid ?p = Inr ix'"
    by (cases "set_prop ix uuid ?p") (simp_all add: prepareLog_def Let_def)
  from assms f enc old lg ix ix'
  have st': "st' = st\<lparr>currLogSize := length (JSON_stringify l (JObj [(uuid, JStr enc)])),
                      logs := lg, index := mutated_at (index st) ''indexes'' ix'\<rparr>"
    by (simp add: prepareLog_def Let_def)
  show ?thesis
  proof (rule that [of enc old ix ix'])
    show "encodeLog l (snd (formatLogBody cfg l now req h)) = Some enc" by (simp add: f enc)
    show "get_prop (logs st) ''logs'' = Inr old" by (rule old)
    show "set_prop (logs st) ''logs'' ?v = Inr (logs st')" by (simp add: lg st')
    show "get_prop (index st) ''indexes'' = Inr ix" by (rule ix)
    show "set_prop ix uuid ?p = Inr ix'" by (rule ix')
    show "index st' = mutated_at (index st) ''indexes'' ix'" by (simp add: st')
    show "currLogSize st' = length (JSON_stringify l (JObj [(uuid, JStr enc)]))" by (simp add: st')
    show "currLogFile st' = currLogFile st" by (simp add: st')
  qed
qed

lemma prepareConfig_fields:
  "prepareConfig cfg st = Inr st' \<Longrightarrow>
     logs st' = logs st \<and> index st' = index st \<and> currLogSize st' = currLogSize st
     \<and> currLogFile st' = currLogFile st"
  by (auto simp: prepareConfig_def split: sum.splits)

lemma match_digits_replace:
  assumes "match_digits name = Some ds"
  shows "match_digits (replace_digits name (toString m)) = Some (toString m)"
proof -
  let ?p = "takeWhile (\<lambda>c. \<not> is_digit c) name"
  let ?q = "dropWhile (\<lambda>c. \<not> is_digit c) name"
  let ?r = "dropWhile is_digit ?q"
  from assms have q: "?q \<noteq> []" by (auto simp: match_digits_def Let_def split: if_splits)
  then have rep: "replace_digits name (toString m) = ?p @ toString m @ ?r"
    by (simp only: replace_digits_def Let_def if_False)
  have p: "\<forall>c \<in> set ?p. \<not> is_digit c" by (auto dest: set_takeWhileD)
  have r: "?r = [] \<or> \<not> is_digit (hd ?r)" using hd_dropWhile [of is_digit ?q] by blast
  show ?thesis
    unfolding rep using p toString_digits toString_nonempty r by (rule match_digits_run)
qed


lemma set_prop_defined:
  assumes "get_prop c k = Inr v" and "v \<noteq> JUndefined"
  shows "\<exists>c'. set_prop c k w = Inr c'"
  using assms by (cases c) simp_all

lemma cleanLogs_single:
  assumes "get_prop (logs st) ''logs'' = Inr (JObj (ps @ [(k, v)]))" and "array_index k = None"
  shows "\<exists>st'. cleanLogs st = Inr st' \<and> get_prop (logs st') ''logs'' = Inr (JObj [(k, v)])
           \<and> currLogFile st' = currLogFile st \<and> currLogSize st' = currLogSize st
           \<and> index st' = index st"
proof -
  from assms(1) obtain lg where lg: "set_prop (logs st) ''logs'' (JObj [(k, v)]) = Inr lg"
    using set_prop_defined [of "logs st" "''logs''" "JObj (ps @ [(k, v)])" "JObj [(k, v)]"] by auto
  have one: "spread [] (JObj [(k, v)]) = [(k, v)]"
    using spread_single_fresh [of k "[]" v] assms(2) by simp
  have c: "cleanLogs st = Inr (st\<lparr>logs := lg\<rparr>)"
    by (simp add: cleanLogs_def assms(1) Object_entries_def slice_last_def one lg)
  have g: "get_prop lg ''logs'' = Inr (JObj [(k, v)])"
    using lg by (rule get_prop_set_prop) (simp_all add: array_index_logs)
  from c g show ?thesis by simp
qed

text \<open>
  Rotation on the capture path \<^verbatim>\<open>save\<close> (\<^verbatim>\<open>prepareLog\<close>, \<^verbatim>\<open>prepareConfig\<close>,
  \<^verbatim>\<open>checkFileSize\<close>): \<open>S\<close> is the size of the current segment file, \<open>E\<close> the byte length
  of the candidate entry \<^verbatim>\<open>{[uuid]: encoded}\<close>, and the threshold is 5000. The identifier is
  one \<^verbatim>\<open>randomUUID\<close> returns and is not yet in the segment; the segment name has a digit
  run, whose value is in the range where numbers are exact. When \<open>S + E > 5000\<close> the
  rotation check replaces the digit run of the name by its value plus one and leaves in the
  in-memory map exactly the entry just appended; when \<open>S + E \<le> 5000\<close> it changes nothing.
\<close>

theorem save_rotation_trigger:
  assumes "prepareLog cfg l uuid now req h st = Inr (h', st1)"
    and "prepareConfig cfg st1 = Inr st2"
    and "is_uuid uuid" and "uuid \<notin> segment_ids (logs st)"
    and "statSync_size fs (currLogFile st2) = Some S"
    and "match_digits (currLogFile st2) = Some ds"
    and "parseInt ds < MAX_SAFE_INTEGER"
  shows "(\<exists>enc. encodeLog l (snd (formatLogBody cfg l now req h)) = Some enc
            \<and> currLogSize st2 = length (JSON_stringify l (JObj [(uuid, JStr enc)]))
            \<and> (5000 < S + currLogSize st2 \<longrightarrow>
                 (\<exists>st3. checkFileSize fs (currLogFile st2) st2 = Inr st3
                    \<and> currLogFile st3 = replace_digits (currLogFile st2) (toString (parseInt ds + 1))
                    \<and> map_option parseInt (match_digits (currLogFile st3)) = Some (parseInt ds + 1)
                    \<and> get_prop (logs st3) ''logs'' = Inr (JObj [(uuid, JStr enc)]))))
         \<and> (S + currLogSize st2 \<le> 5000 \<longrightarrow> checkFileSize fs (currLogFile st2) st2 = Inr st2)"
proof
  from assms(1) obtain enc old where
    enc: "encodeLog l (snd (formatLogBody cfg l now req h)) = Some enc"
    and old: "get_prop (logs st) ''logs'' = Inr old"
    and lg: "set_prop (logs st) ''logs'' (JObj (spread (spread [] old) (JObj [(uuid, JStr enc)])))
              = Inr (logs st1)"
    and sz: "currLogSize st1 = length (JSON_stringify l (JObj [(uuid, JStr enc)]))"
    by (rule prepareLog_effect)
  note same = prepareConfig_fields [OF assms(2)]
  have ai: "array_index uuid = None" using assms(3) by (rule is_uuid_not_index)
  from old assms(4) have "uuid \<notin> fst ` set (own_entries old)"
    by (simp add: segment_ids_def get_prop_opt_def)
  then have "uuid \<notin> fst ` set (spread [] old)" by (simp add: keys_spread)
  then have app: "spread (spread [] old) (JObj [(uuid, JStr enc)]) = spread [] old @ [(uuid, JStr enc)]"
    using ai by (rule spread_single_fresh)
  have g: "get_prop (logs st2) ''logs'' = Inr (JObj (spread [] old @ [(uuid, JStr enc)]))"
    using get_prop_set_prop [OF lg] by (simp add: array_index_logs app same)
  let ?name = "replace_digits (currLogFile st2) (toString (parseInt ds + 1))"
  have rot: "\<exists>st3. checkFileSize fs (currLogFile st2) st2 = Inr st3
                \<and> currLogFile st3 = ?name
                \<and> map_option parseInt (match_digits (currLogFile st3)) = Some (parseInt ds + 1)
                \<and> get_prop (logs st3) ''logs'' = Inr (JObj [(uuid, JStr enc)])"
    if big: "5000 < S + currLogSize st2"
  proof -
    have inc: "incrementLogFile (currLogFile st2) st2 = Inr (st2\<lparr>currLogFile := ?name\<rparr>)"
      by (simp add: incrementLogFile_def assms(6))
    have "get_prop (logs (st2\<lparr>currLogFile := ?name\<rparr>)) ''logs''
            = Inr (JObj (spread [] old @ [(uuid, JStr enc)]))"
      using g by simp
    from cleanLogs_single [OF this ai] obtain st3 where
      c: "cleanLogs (st2\<lparr>currLogFile := ?name\<rparr>) = Inr st3"
      and l3: "get_prop (logs st3) ''logs'' = Inr (JObj [(uuid, JStr enc)])"
      and f3: "currLogFile st3 = ?name"
      by auto
    have k: "checkFileSize fs (currLogFile st2) st2 = Inr st3"
      using big inc c by (simp add: checkFileSize_def assms(5))
    have m: "map_option parseInt (match_digits (currLogFile st3)) = Some (parseInt ds + 1)"
      by (simp add: f3 match_digits_replace [OF assms(6)] parseInt_toString)
    from k f3 m l3 show ?thesis by blast
  qed
  show "\<exists>enc. encodeLog l (snd (formatLogBody cfg l now req h)) = Some enc
            \<and> currLogSize st2 = length (JSON_stringify l (JObj [(uuid, JStr enc)]))
            \<and> (5000 < S + currLogSize st2 \<longrightarrow>
                 (\<exists>st3. checkFileSize fs (currLogFile st2) st2 = Inr st3
                    \<and> currLogFile st3 = replace_digits (currLogFile st2) (toString (parseInt ds + 1))
                    \<and> map_option parseInt (match_digits (currLogFile st3)) = Some (parseInt ds + 1)
                    \<and> get_prop (logs st3) ''logs'' = Inr (JObj [(uuid, JStr enc)])))"
    using enc sz same rot by auto
next
  show "S + currLogSize st2 \<le> 5000 \<longrightarrow> checkFileSize fs (currLogFile st2) st2 = Inr st2"
    by (simp add: checkFileSize_def assms(5))
qed



theorem save_rotation_trigger_example:
  "get_prop (logs (projr test_configured_entry)) ''logs''
     = Inr (JObj [(''a'', JStr ''x''), (test_uuid, JStr ''CgNHRVQ='')])
   \<and> currLogFile (projr test_configured_entry) = ''logs_0.json''
   \<and> (\<exists>st3. checkFileSize full_dir ''logs_0.json'' (projr test_configured_entry) = Inr st3
         \<and> currLogFile st3 = ''logs_1.json''
         \<and> get_prop (logs st3) ''logs'' = Inr (JObj [(test_uuid, JStr ''CgNHRVQ='')]))
   \<and> checkFileSize small_dir ''logs_0.json'' (projr test_configured_entry)
       = Inr (projr test_configured_entry)"
proof -
  let ?P = "projr test_prepared_entry"
  let ?st2 = "projr test_configured_entry"
  have "\<not> isl test_prepared_entry" by code_simp
  then have "test_prepared_entry = Inr (fst ?P, snd ?P)" by simp
  then have r1: "prepareLog test_config test_lib test_uuid 0 test_request test_heap entry_reader
      = Inr (fst ?P, snd ?P)"
    by (simp add: test_prepared_entry_def)
  have "\<not> isl test_configured_entry" by code_simp
  then have "test_configured_entry = Inr ?st2" by simp
  then have r2: "prepareConfig test_config (snd ?P) = Inr ?st2"
    by (simp add: test_configured_entry_def)
  have u: "is_uuid test_uuid" by code_simp
  have f: "test_uuid \<notin> segment_ids (logs entry_reader)" by code_simp
  have n: "currLogFile ?st2 = ''logs_0.json''" by code_simp
  have s1: "statSync_size full_dir (currLogFile ?st2) = Some 5000"
    by (simp add: n statSync_size_def full_dir_def dir_of_def)
  have s2: "statSync_size small_dir (currLogFile ?st2) = Some 2"
    by (simp add: n statSync_size_def small_dir_def dir_of_def)
  have m: "match_digits (currLogFile ?st2) = Some ''0''" by code_simp
  have b: "parseInt ''0'' < MAX_SAFE_INTEGER"
    by (simp add: parseInt_def digit_val_def MAX_SAFE_INTEGER_def)
  have e: "encodeLog test_lib (snd (formatLogBody test_config test_lib 0 test_request test_heap))
      = Some ''CgNHRVQ=''"
    by (simp add: test_lib_def)
  have z: "currLogSize ?st2 = 51" by code_simp
  have nm: "replace_digits ''logs_0.json'' (toString (parseInt ''0'' + 1)) = ''logs_1.json''"
    by code_simp
  have g: "get_prop (logs ?st2) ''logs''
     = Inr (JObj [(''a'', JStr ''x''), (test_uuid, JStr ''CgNHRVQ='')])"
    by code_simp
  note A = save_rotation_trigger [OF r1 r2 u f s1 m b]
  note B = save_rotation_trigger [OF r1 r2 u f s2 m b]
  from A e have a: "\<exists>st3. checkFileSize full_dir ''logs_0.json'' ?st2 = Inr st3
         \<and> currLogFile st3 = ''logs_1.json''
         \<and> get_prop (logs st3) ''logs'' = Inr (JObj [(test_uuid, JStr ''CgNHRVQ='')])"
    unfolding n nm z by auto
  from B have c: "checkFileSize small_dir ''logs_0.json'' ?st2 = Inr ?st2"
    unfolding n z by simp
  from g n a c show ?thesis by simp
qed

section \<open>The index covers the segment\<close>















section \<open>Rotation in the textual capture\<close>

lemma fetch_big: "fetchCurrentLogFile (big_dir pad) None new_reader = Inr new_reader"
proof -
  have "List.map_filter (\<lambda>file. map_option parseInt (match_digits file))
          (filter (str_includes ''logs'') [''logs_0.json'', ''index.json'', ''config.json'']) = [0]"
    by code_simp
  moreover have "segment_name 0 = ''logs_0.json''" by code_simp
  ultimately show ?thesis
    by (simp add: fetchCurrentLogFile_def readdirSync_def big_dir_def dir_of_def new_reader_def)
qed

lemma pre_big: "pre (big_lib pad) (big_dir pad) new_reader = Inr (big_dir pad)"
  by (simp add: pre_def initDirectories_def validateFile_def existsSync_def big_dir_def dir_of_def
      new_reader_def)

lemma render_big_neq: "render empty_index \<noteq> render (big_segment pad)"
    "render empty_config \<noteq> render (big_segment pad)"
  by (simp_all add: empty_index_def empty_config_def big_segment_def)

lemma test_parse_defaults: "test_parse (render empty_index) = Some empty_index"
    "test_parse (render empty_config) = Some empty_config"
  by code_simp+

lemma loaded_big:
  "prepareConfigFile (big_lib pad) (big_dir pad)
     (prepareIndexFile (big_lib pad) (big_dir pad)
        (prepareLogJsonFile (big_lib pad) (big_dir pad) new_reader))
   = new_reader\<lparr>logsJson := big_segment pad\<rparr>"
proof -
  have t: "truthy (get_prop_opt (big_segment pad) ''logs'')"
    by (simp add: big_segment_def get_prop_opt_def)
  have f: "readFileSync (big_dir pad) ''logs_0.json'' = Some (render (big_segment pad))"
      "readFileSync (big_dir pad) ''index.json'' = Some (render empty_index)"
      "readFileSync (big_dir pad) ''config.json'' = Some (render empty_config)"
    by (simp_all add: readFileSync_def big_dir_def dir_of_def)
  have c: "currLogFile new_reader = ''logs_0.json''" "index new_reader = empty_index"
     "config new_reader = empty_config"
    by (simp_all add: new_reader_def)
  show ?thesis
    using t render_big_neq [of pad]
    by (simp add: prepareConfigFile_def prepareIndexFile_def prepareLogJsonFile_def f c
        big_lib_def test_lib_def test_parse_defaults new_reader_def)
qed


lemma formatLogBody_big_lib:
  "formatLogBody cfg (big_lib pad) now req h = formatLogBody cfg test_lib now req h"
  by (simp add: formatLogBody_def big_lib_def)

lemma test_uuid_facts: "array_index test_uuid = None" "test_uuid \<noteq> ''a''" "test_uuid \<noteq> ''__proto__''"
  by code_simp+

lemma array_index_a: "array_index ''a'' = None"
  by (simp add: array_index_def is_digit_def)

lemma prepared_big:
  "\<exists>h' lb p. prepareJsonLog text_config (big_lib pad) test_uuid 0 test_request test_heap
       (new_reader\<lparr>logsJson := big_segment pad\<rparr>)
     = Inr (h', new_reader\<lparr>logsJson := JObj [(''logs'', JObj [(''a'', JStr pad), (test_uuid, lb)])],
                         index := JObj [(''indexes'', JObj [(test_uuid, p)])],
                         currLogSize := length (render (JObj [(test_uuid, lb)]))\<rparr>)"
  by (simp add: prepareJsonLog_def formatLogBody_big_lib Let_def split_beta big_segment_def
      new_reader_def empty_index_def spread_def define_prop_def assign_member_def
      test_uuid_facts array_index_a array_index_logs big_lib_def test_lib_def)


lemma saveJson_big:
  assumes "length pad = 5000"
  shows "map_sum id (\<lambda>(h, fs, st). (currLogFile st, get_prop (logs st) ''logs'',
             map fst (own_entries (get_prop_opt (logsJson st) ''logs'')),
             map_of (files fs) ''logs_1.json'' = Some (render (logsJson st))))
           (saveJson text_config (big_lib pad) test_uuid 0 test_request test_heap (big_dir pad) new_reader)
         = Inr (''logs_1.json'', Inr (JObj []), [''a'', test_uuid], True)"
proof -
  obtain h' lb p where prep:
    "prepareJsonLog text_config (big_lib pad) test_uuid 0 test_request test_heap
       (new_reader\<lparr>logsJson := big_segment pad\<rparr>)
     = Inr (h', new_reader\<lparr>logsJson := JObj [(''logs'', JObj [(''a'', JStr pad), (test_uuid, lb)])],
                         index := JObj [(''indexes'', JObj [(test_uuid, p)])],
                         currLogSize := length (render (JObj [(test_uuid, lb)]))\<rparr>)"
    using prepared_big by blast
  let ?st5 = "new_reader\<lparr>logsJson := JObj [(''logs'', JObj [(''a'', JStr pad), (test_uuid, lb)])],
                         index := JObj [(''indexes'', JObj [(test_uuid, p)])],
                         currLogSize := length (render (JObj [(test_uuid, lb)]))\<rparr>"
  let ?st6 = "?st5\<lparr>config := JObj [(''disableProto'', JBool True)]\<rparr>"
  have conf: "prepareConfig text_config ?st5 = Inr ?st6"
    by (simp add: prepareConfig_def text_config_def new_reader_def empty_config_def
        assign_member_def define_prop_def)
  have sz: "statSync_size (big_dir pad) ''logs_0.json'' = Some 5017"
    by (simp add: statSync_size_def big_dir_def dir_of_def big_segment_def dq_def assms)
  have nm: "replace_digits ''logs_0.json'' (toString (Suc (parseInt ''0''))) = ''logs_1.json''"
      "match_digits ''logs_0.json'' = Some ''0''"
    by code_simp+
  let ?st7 = "?st6\<lparr>currLogFile := ''logs_1.json'', logs := JObj [(''logs'', JObj [])]\<rparr>"
  have rot: "checkFileSize (big_dir pad) (currLogFile ?st6) ?st6 = Inr ?st7"
    by (simp add: checkFileSize_def new_reader_def sz incrementLogFile_def nm cleanLogs_def
        empty_logs_def Object_entries_def slice_last_def spread_def assign_member_def
        define_prop_def)
  have sv: "map_of (files (saveFiles text_config (big_lib pad) (big_dir pad) ?st7)) ''logs_1.json''
      = Some (render (logsJson ?st7))"
    by (simp add: saveFiles_def writeFileSync_def big_dir_def dir_of_def text_config_def
        big_lib_def test_lib_def update_conv' new_reader_def)
  have run: "saveJson text_config (big_lib pad) test_uuid 0 test_request test_heap (big_dir pad) new_reader
      = Inr (h', saveFiles text_config (big_lib pad) (big_dir pad) ?st7, ?st7)"
    by (simp only: saveJson_def pre_big fetch_big Let_def loaded_big prep conf rot sum.case prod.case)
  show ?thesis
    unfolding run using sv
    by (simp add: new_reader_def get_prop_opt_def)
qed

text \<open>
  Claim C1 says that every capture whose combined size exceeds the threshold increments the
  segment number and leaves in the in-memory log map only the entry appended last. The
  binary capture \<^verbatim>\<open>save\<close> does (above). The textual capture \<^verbatim>\<open>saveJson\<close> appends the
  entry to \<^verbatim>\<open>logsJson\<close>, but \<^verbatim>\<open>cleanLogs\<close> compacts \<^verbatim>\<open>logs\<close>. On a store whose current
  segment holds one entry \<^verbatim>\<open>a\<close> in 5017 bytes, \<^verbatim>\<open>saveJson\<close> moves to \<^verbatim>\<open>logs_1.json\<close>,
  leaves the binary map empty and keeps both \<^verbatim>\<open>a\<close> and the new entry in the textual map,
  which is what it writes to the new segment.
\<close>

theorem C1_saveJson_rotation_not_compacted:
  "map_sum id (\<lambda>(h, fs, st). (currLogFile st, get_prop (logs st) ''logs'',
             map fst (own_entries (get_prop_opt (logsJson st) ''logs'')),
             map_of (files fs) ''logs_1.json'' = Some (render (logsJson st))))
     (saveJson text_config (big_lib (replicate 5000 CHR ''x'')) test_uuid 0 test_request test_heap
        (big_dir (replicate 5000 CHR ''x'')) new_reader)
   = Inr (''logs_1.json'', Inr (JObj []), [''a'', test_uuid], True)"
  by (rule saveJson_big) simp

end
